theory Spec2Isabelle
  imports Complex_Main
begin

section \<open>The authentication context of the hospital management front end\<close>

text \<open>
  The development embeds the session module of the React front end
  (\<^verbatim>\<open>AuthContext\<close>, file \<^verbatim>\<open>src/unnamed/part_004\<close>): the reducer
  \<^verbatim>\<open>authReducer\<close>, the token helpers, the actions of the provider and its effects.

  Conventions of the embedding.
  \<^item> A JavaScript value that may be \<^verbatim>\<open>null\<close> or \<^verbatim>\<open>undefined\<close> is an \<open>option\<close>;
    a string is falsy exactly when it is empty, a number exactly when it is zero.
  \<^item> \<^verbatim>\<open>Date.now()\<close> is a parameter \<open>now\<close> (milliseconds, an integer).
  \<^item> Everything the provider mutates outside the reducer state (the persisted token,
    the default request header, the two timer references, the pending timeouts) and
    everything it emits (toasts, network requests) is a field of the record \<open>world\<close>.
  \<^item> An awaited network call takes the outcome of the call as an argument; a call that
    is never answered makes the action return \<open>None\<close>.
\<close>

subsection \<open>Data\<close>

record user_rec =
  firstName :: string
  role :: "string option"

text \<open>The reducer state, with the fields of \<^verbatim>\<open>initialState\<close>.\<close>

record auth_state =
  user :: "user_rec option"
  token :: "string option"
  isAuthenticated :: bool
  loading :: bool
  error :: "string option"
  isInitialized :: bool
  sessionExpiry :: "int option"
  lastActivity :: int

text \<open>The body of a server response (\<^verbatim>\<open>res.data\<close>), as far as the module reads it.\<close>

record resp_data =
  d_token :: "string option"
  d_user :: "user_rec option"
  d_expiresIn :: "int option"
  d_message :: "string option"

datatype action =
    SET_INITIALIZED
  | USER_LOADING
  | USER_LOADED "user_rec option"
  | AUTH_ERROR "string option"
  | LOGIN_SUCCESS resp_data
  | LOGIN_FAIL "string option"
  | LOGOUT
  | LOGOUT_SILENT
  | CLEAR_ERRORS
  | REGISTER_SUCCESS resp_data
  | REGISTER_FAIL "string option"
  | UPDATE_ACTIVITY
  | SESSION_WARNING
  | TOKEN_REFRESH resp_data

text \<open>\<^verbatim>\<open>initialState\<close>; the token is read from the local storage when the module loads.\<close>

definition initialState :: "string option \<Rightarrow> int \<Rightarrow> auth_state" where
  "initialState stored now =
     \<lparr> user = None, token = stored, isAuthenticated = False, loading = True,
       error = None, isInitialized = False, sessionExpiry = None, lastActivity = now \<rparr>"

text \<open>\<^verbatim>\<open>action.payload.expiresIn ? Date.now() + (action.payload.expiresIn * 1000) : null\<close>\<close>

definition expiry_of :: "int \<Rightarrow> int option \<Rightarrow> int option" where
  "expiry_of now e =
     (case e of None \<Rightarrow> None
      | Some n \<Rightarrow> if n \<noteq> 0 then Some (now + n * 1000) else None)"

fun authReducer :: "int \<Rightarrow> auth_state \<Rightarrow> action \<Rightarrow> auth_state" where
  "authReducer now state SET_INITIALIZED =
     state\<lparr> isInitialized := True, loading := False \<rparr>"
| "authReducer now state USER_LOADING =
     state\<lparr> loading := True, error := None \<rparr>"
| "authReducer now state (USER_LOADED payload) =
     state\<lparr> isAuthenticated := True, loading := False, user := payload, error := None,
            isInitialized := True, lastActivity := now \<rparr>"
| "authReducer now state (LOGIN_SUCCESS payload) =
     state\<lparr> token := d_token payload, user := d_user payload, isAuthenticated := True,
            loading := False, error := None, isInitialized := True,
            sessionExpiry := expiry_of now (d_expiresIn payload), lastActivity := now \<rparr>"
| "authReducer now state (REGISTER_SUCCESS payload) =
     state\<lparr> token := d_token payload, user := d_user payload, isAuthenticated := True,
            loading := False, error := None, isInitialized := True,
            sessionExpiry := expiry_of now (d_expiresIn payload), lastActivity := now \<rparr>"
| "authReducer now state (TOKEN_REFRESH payload) =
     state\<lparr> token := d_token payload,
            sessionExpiry := expiry_of now (d_expiresIn payload), lastActivity := now \<rparr>"
| "authReducer now state (AUTH_ERROR payload) =
     state\<lparr> token := None, user := None, isAuthenticated := False, loading := False,
            error := payload, isInitialized := True, sessionExpiry := None \<rparr>"
| "authReducer now state (LOGIN_FAIL payload) =
     state\<lparr> token := None, user := None, isAuthenticated := False, loading := False,
            error := payload, isInitialized := True, sessionExpiry := None \<rparr>"
| "authReducer now state (REGISTER_FAIL payload) =
     state\<lparr> token := None, user := None, isAuthenticated := False, loading := False,
            error := payload, isInitialized := True, sessionExpiry := None \<rparr>"
| "authReducer now state LOGOUT =
     state\<lparr> token := None, user := None, isAuthenticated := False, loading := False,
            error := None, isInitialized := True, sessionExpiry := None \<rparr>"
| "authReducer now state LOGOUT_SILENT =
     state\<lparr> token := None, user := None, isAuthenticated := False, loading := False,
            error := None, sessionExpiry := None \<rparr>"
| "authReducer now state UPDATE_ACTIVITY =
     state\<lparr> lastActivity := now \<rparr>"
| "authReducer now state CLEAR_ERRORS =
     state\<lparr> error := None \<rparr>"
| "authReducer now state SESSION_WARNING =
     state\<lparr> error := Some ''Session will expire soon. Please save your work.'' \<rparr>"

subsection \<open>Role checks\<close>

text \<open>
  \<^verbatim>\<open>state.user?.role\<close>: \<^verbatim>\<open>undefined\<close> when no user is loaded, the user's role otherwise.
  A role argument is a string or \<^verbatim>\<open>undefined\<close> (\<open>None\<close>).
\<close>

definition user_role :: "auth_state \<Rightarrow> string option" where
  "user_role state = (case user state of None \<Rightarrow> None | Some u \<Rightarrow> role u)"

definition hasRole :: "auth_state \<Rightarrow> string option \<Rightarrow> bool" where
  "hasRole state r = (user_role state = r)"

definition hasAnyRole :: "auth_state \<Rightarrow> string option list \<Rightarrow> bool" where
  "hasAnyRole state roles = (user_role state \<in> set roles)"

datatype view = AccessDenied | Component

definition withRoleAccess :: "string option list \<Rightarrow> auth_state \<Rightarrow> view" where
  "withRoleAccess allowedRoles state =
     (if user state = None \<or> \<not> hasAnyRole state allowedRoles then AccessDenied
      else Component)"

subsection \<open>Strings\<close>

text \<open>
  \<^verbatim>\<open>String.prototype.split\<close> with a one-character separator: a string with \<open>n\<close>
  separators gives \<open>n + 1\<close> segments, empty ones included.
\<close>

fun js_split :: "char \<Rightarrow> string \<Rightarrow> string list" where
  "js_split sep [] = [[]]"
| "js_split sep (c # cs) =
     (if c = sep then [] # js_split sep cs
      else (case js_split sep cs of [] \<Rightarrow> [[c]] | s # ss \<Rightarrow> (c # s) # ss))"

text \<open>Truthiness of a string that may be missing.\<close>

definition truthy :: "string option \<Rightarrow> bool" where
  "truthy s = (case s of None \<Rightarrow> False | Some t \<Rightarrow> t \<noteq> [])"

text \<open>\<^verbatim>\<open>a || b\<close> on strings that may be missing.\<close>

definition or_else :: "string option \<Rightarrow> string option \<Rightarrow> string option" where
  "or_else a b = (if truthy a then a else b)"

text \<open>
  The class \<^verbatim>\<open>\s\<close> of a JavaScript regular expression, on the code units below 256:
  tab, line feed, vertical tab, form feed, carriage return, space, no-break space.
\<close>

definition is_space :: "char \<Rightarrow> bool" where
  "is_space c = ((of_char c :: nat) \<in> {9, 10, 11, 12, 13, 32, 160})"

text \<open>\<^verbatim>\<open>trim\<close> and \<^verbatim>\<open>toLowerCase\<close>, on the code units below 256.\<close>

definition trim :: "string \<Rightarrow> string" where
  "trim s = rev (dropWhile is_space (rev (dropWhile is_space s)))"

definition toLowerCase :: "string \<Rightarrow> string" where
  "toLowerCase s =
     map (\<lambda>c. let n = (of_char c :: nat)
              in if (65 \<le> n \<and> n \<le> 90) \<or> (192 \<le> n \<and> n \<le> 222 \<and> n \<noteq> 215)
                 then char_of (n + 32) else c) s"

text \<open>
  Regular expressions, matched by derivatives; enough for the pattern of the e-mail
  check, which is anchored at both ends.
\<close>

datatype regex =
    Nothing
  | Epsilon
  | Class "char \<Rightarrow> bool"
  | Seq regex regex
  | Alt regex regex
  | Star regex

fun nullable :: "regex \<Rightarrow> bool" where
  "nullable Nothing = False"
| "nullable Epsilon = True"
| "nullable (Class P) = False"
| "nullable (Seq r s) = (nullable r \<and> nullable s)"
| "nullable (Alt r s) = (nullable r \<or> nullable s)"
| "nullable (Star r) = True"

fun deriv :: "char \<Rightarrow> regex \<Rightarrow> regex" where
  "deriv c Nothing = Nothing"
| "deriv c Epsilon = Nothing"
| "deriv c (Class P) = (if P c then Epsilon else Nothing)"
| "deriv c (Seq r s) =
     (if nullable r then Alt (Seq (deriv c r) s) (deriv c s) else Seq (deriv c r) s)"
| "deriv c (Alt r s) = Alt (deriv c r) (deriv c s)"
| "deriv c (Star r) = Seq (deriv c r) (Star r)"

fun regex_test :: "regex \<Rightarrow> string \<Rightarrow> bool" where
  "regex_test r [] = nullable r"
| "regex_test r (c # cs) = regex_test (deriv c r) cs"

definition Plus :: "regex \<Rightarrow> regex" where
  "Plus r = Seq r (Star r)"

text \<open>\<^verbatim>\<open>/^[^\s@]+@[^\s@]+\.[^\s@]+$/\<close>\<close>

definition not_space_at :: "char \<Rightarrow> bool" where
  "not_space_at c = (\<not> is_space c \<and> c \<noteq> CHR ''@'')"

definition emailRegex :: regex where
  "emailRegex =
     Seq (Plus (Class not_space_at))
       (Seq (Class (\<lambda>c. c = CHR ''@''))
         (Seq (Plus (Class not_space_at))
           (Seq (Class (\<lambda>c. c = CHR ''.'')) (Plus (Class not_space_at)))))"

subsection \<open>The world around the reducer\<close>

datatype callback = SessionWarning | AutoLogout

record timeout =
  timer_id :: nat
  callback :: callback
  due :: int

datatype toast_kind = ToastError | ToastSuccess

datatype http_request = Get string | Post string "string list"

record world =
  state :: auth_state
  clock :: int
  localStorage_token :: "string option"
  authorization :: "string option"
  sessionTimeoutRef :: "nat option"
  activityTimeoutRef :: "nat option"
  timeouts :: "timeout list"
  next_handle :: nat
  toasts :: "(toast_kind \<times> string) list"
  requests :: "http_request list"

definition dispatch :: "action \<Rightarrow> world \<Rightarrow> world" where
  "dispatch a w = w\<lparr> state := authReducer (clock w) (state w) a \<rparr>"

definition toast :: "toast_kind \<Rightarrow> string \<Rightarrow> world \<Rightarrow> world" where
  "toast k msg w = w\<lparr> toasts := toasts w @ [(k, msg)] \<rparr>"

definition clearTimeout :: "nat \<Rightarrow> world \<Rightarrow> world" where
  "clearTimeout h w = w\<lparr> timeouts := filter (\<lambda>t. timer_id t \<noteq> h) (timeouts w) \<rparr>"

definition setTimeout :: "callback \<Rightarrow> int \<Rightarrow> world \<Rightarrow> nat \<times> world" where
  "setTimeout cb delay w =
     (next_handle w,
      w\<lparr> timeouts := timeouts w @ [\<lparr> timer_id = next_handle w, callback = cb,
                                    due = clock w + delay \<rparr>],
         next_handle := Suc (next_handle w) \<rparr>)"

text \<open>\<^verbatim>\<open>if (ref.current) { clearTimeout(ref.current); }\<close>\<close>

definition clear_ref :: "nat option \<Rightarrow> world \<Rightarrow> world" where
  "clear_ref r w = (case r of None \<Rightarrow> w | Some h \<Rightarrow> clearTimeout h w)"

subsection \<open>Token helpers\<close>

definition setAuthToken :: "string option \<Rightarrow> world \<Rightarrow> bool \<times> world" where
  "setAuthToken tok w =
     (case tok of
        None \<Rightarrow> (False, w\<lparr> authorization := None, localStorage_token := None \<rparr>)
      | Some t \<Rightarrow>
          if t \<noteq> [] then
            (let tokenParts = js_split (CHR ''.'') t
             in if length tokenParts = 3
                then (True, w\<lparr> authorization := Some (''Bearer '' @ t),
                               localStorage_token := Some t \<rparr>)
                else (False, w))
          else (False, w\<lparr> authorization := None, localStorage_token := None \<rparr>))"

text \<open>
  The decoded payload of a token, as far as \<^verbatim>\<open>isTokenValid\<close> reads it: the numeric
  value of its \<^verbatim>\<open>exp\<close> claim, \<open>None\<close> when the claim is missing or not a number.
  \<^verbatim>\<open>JSON.parse(atob(segment))\<close> belongs to the platform and is a parameter
  \<open>parsePayload\<close> of the model; it gives \<open>None\<close> where the platform throws.
\<close>

record jwt_payload =
  exp_claim :: "rat option"

definition isTokenValid :: "(string \<Rightarrow> jwt_payload option) \<Rightarrow> int \<Rightarrow> string option \<Rightarrow> bool" where
  "isTokenValid parsePayload now tok =
     (case tok of
        None \<Rightarrow> False
      | Some t \<Rightarrow>
          if t = [] then False
          else (let tokenParts = js_split (CHR ''.'') t
                in if length tokenParts \<noteq> 3 then False
                   else (case parsePayload (tokenParts ! 1) of
                           None \<Rightarrow> False
                         | Some payload \<Rightarrow>
                             (let currentTime = (of_int now :: rat) / 1000
                              in case exp_claim payload of
                                   None \<Rightarrow> False
                                 | Some e \<Rightarrow> e > currentTime))))"

subsection \<open>Logging out\<close>

definition logoutSilent :: "world \<Rightarrow> world" where
  "logoutSilent w =
     (let w1 = w\<lparr> localStorage_token := None \<rparr>;
          w2 = w1\<lparr> authorization := None \<rparr>;
          w3 = clear_ref (sessionTimeoutRef w2) w2;
          w4 = clear_ref (activityTimeoutRef w3) w3
      in dispatch LOGOUT_SILENT w4)"

definition logout :: "world \<Rightarrow> world" where
  "logout w =
     (let w1 = w\<lparr> localStorage_token := None \<rparr>;
          w2 = w1\<lparr> authorization := None \<rparr>;
          w3 = clear_ref (sessionTimeoutRef w2) w2;
          w4 = clear_ref (activityTimeoutRef w3) w3;
          w5 = dispatch LOGOUT w4
      in toast ToastSuccess ''Logged out successfully'' w5)"

subsection \<open>Network calls\<close>

text \<open>
  What comes back for one request: a response with a status and a body, or no response
  at all (a timeout has the code \<^verbatim>\<open>ECONNABORTED\<close>), together with the time the call
  took. The replies still to come are a list; the head answers the next request.
\<close>

datatype net_outcome =
    Response nat resp_data
  | NoResponse "string option" string

record net_reply =
  latency :: nat
  outcome :: net_outcome

text \<open>
  What a \<^verbatim>\<open>catch\<close> can receive: an error of the HTTP client, with its optional
  \<^verbatim>\<open>response\<close>, \<^verbatim>\<open>code\<close> and its \<^verbatim>\<open>message\<close>, or a plain \<^verbatim>\<open>Error(message)\<close>.
\<close>

datatype js_error =
    AxiosError "(nat \<times> resp_data) option" "string option" string
  | Error string

fun error_status :: "js_error \<Rightarrow> nat option" where
  "error_status (AxiosError (Some (s, d)) c m) = Some s"
| "error_status (AxiosError None c m) = None"
| "error_status (Error m) = None"

fun error_response_message :: "js_error \<Rightarrow> string option" where
  "error_response_message (AxiosError (Some (s, d)) c m) = d_message d"
| "error_response_message (AxiosError None c m) = None"
| "error_response_message (Error m) = None"

fun error_code :: "js_error \<Rightarrow> string option" where
  "error_code (AxiosError r c m) = c"
| "error_code (Error m) = None"

fun error_message :: "js_error \<Rightarrow> string option" where
  "error_message (AxiosError r c m) = Some m"
| "error_message (Error m) = Some m"

fun show_nat :: "nat \<Rightarrow> string" where
  "show_nat n =
     (if n < 10 then [char_of (48 + n)]
      else show_nat (n div 10) @ [char_of (48 + n mod 10)])"

declare show_nat.simps [simp del]

text \<open>The default \<^verbatim>\<open>validateStatus\<close> of the HTTP client.\<close>

definition default_validateStatus :: "nat \<Rightarrow> bool" where
  "default_validateStatus status = (200 \<le> status \<and> status < 300)"

text \<open>
  A reply resolves the call when its status passes \<^verbatim>\<open>validateStatus\<close>; otherwise,
  and when no response came, the call is rejected with an error of the client.
\<close>

definition settle :: "(nat \<Rightarrow> bool) \<Rightarrow> net_outcome \<Rightarrow> js_error + nat \<times> resp_data" where
  "settle validateStatus out =
     (case out of
        Response s d \<Rightarrow>
          if validateStatus s then Inr (s, d)
          else Inl (AxiosError (Some (s, d)) None
                      (''Request failed with status code '' @ show_nat s))
      | NoResponse c m \<Rightarrow> Inl (AxiosError None c m))"

definition axios_send :: "http_request \<Rightarrow> world \<Rightarrow> world" where
  "axios_send req w = w\<lparr> requests := requests w @ [req] \<rparr>"

definition await :: "net_reply \<Rightarrow> world \<Rightarrow> world" where
  "await r w = w\<lparr> clock := clock w + int (latency r) \<rparr>"

subsection \<open>The refresh flow\<close>

text \<open>
  The provider registers a response interceptor on the client itself, and
  \<^verbatim>\<open>refreshToken\<close> posts through the same client, so the reply to the refresh request
  passes the interceptor too. \<open>auth\<close> is the value of \<^verbatim>\<open>state.isAuthenticated\<close> that
  the interceptor closed over.

  \<^item> \<open>axios_receive\<close>: the reply to a request sent earlier arrives; a rejection runs the
    interceptor before it reaches the caller.
  \<^item> \<open>interceptor_rejected\<close>: the rejection handler of the interceptor; it always passes
    the error on.
  \<^item> \<open>refreshToken\<close> sends the request; \<open>refreshToken_resume\<close> is the function from its
    \<^verbatim>\<open>await\<close> on. The result is \<^verbatim>\<open>success\<close>.
\<close>

fun axios_receive ::
    "bool \<Rightarrow> (nat \<Rightarrow> bool) \<Rightarrow> net_reply list \<Rightarrow> world \<Rightarrow>
       ((js_error + nat \<times> resp_data) \<times> net_reply list \<times> world) option"
  and interceptor_rejected ::
    "bool \<Rightarrow> js_error \<Rightarrow> net_reply list \<Rightarrow> world \<Rightarrow> (net_reply list \<times> world) option"
  and refreshToken ::
    "bool \<Rightarrow> net_reply list \<Rightarrow> world \<Rightarrow> (bool \<times> net_reply list \<times> world) option"
  and refreshToken_resume ::
    "bool \<Rightarrow> net_reply list \<Rightarrow> world \<Rightarrow> (bool \<times> net_reply list \<times> world) option"
where
  "axios_receive auth validateStatus [] w = None"
| "axios_receive auth validateStatus (r # rs) w =
     (case settle validateStatus (outcome r) of
        Inr res \<Rightarrow> Some (Inr res, rs, await r w)
      | Inl err \<Rightarrow>
          (case interceptor_rejected auth err rs (await r w) of
             None \<Rightarrow> None
           | Some (rs', w') \<Rightarrow> Some (Inl err, rs', w')))"
| "interceptor_rejected auth err rs w =
     (if error_status err = Some 401 \<and> auth then
        (case refreshToken auth rs w of
           None \<Rightarrow> None
         | Some (success, rs', w') \<Rightarrow>
             if \<not> success
             then Some (rs', toast ToastError ''Session expired. Please log in again.''
                               (logoutSilent w'))
             else Some (rs', w'))
      else Some (rs, w))"
| "refreshToken auth rs w =
     refreshToken_resume auth rs (axios_send (Post ''/api/auth/refresh'' []) w)"
| "refreshToken_resume auth rs w =
     (case axios_receive auth default_validateStatus rs w of
        None \<Rightarrow> None
      | Some (Inr (s, d), rs', w') \<Rightarrow>
          if truthy (d_token d) then
            (case setAuthToken (d_token d) w' of
               (True, w'') \<Rightarrow> Some (True, rs', dispatch (TOKEN_REFRESH d) w'')
             | (False, w'') \<Rightarrow> Some (False, rs', logoutSilent w''))
          else Some (False, rs', logoutSilent w')
      | Some (Inl err, rs', w') \<Rightarrow> Some (False, rs', logoutSilent w'))"

declare axios_receive.simps [simp del] interceptor_rejected.simps [simp del]
  refreshToken.simps [simp del] refreshToken_resume.simps [simp del]

subsection \<open>Logging in, registering, loading the user\<close>

text \<open>
  The result object of an action: \<^verbatim>\<open>{ success: true, user }\<close> or
  \<^verbatim>\<open>{ success: false, error: message }\<close>.
\<close>

datatype action_result = Success user_rec | Failure string

text \<open>\<^verbatim>\<open>a || 'fallback'\<close>\<close>

definition or_default :: "string option \<Rightarrow> string \<Rightarrow> string" where
  "or_default a b = (case a of None \<Rightarrow> b | Some t \<Rightarrow> if t \<noteq> [] then t else b)"

text \<open>
  Reading \<^verbatim>\<open>res.data.user.firstName\<close> without a user throws a \<^verbatim>\<open>TypeError\<close>; the
  text of its message belongs to the engine.
\<close>

definition no_user_message :: string where
  "no_user_message = ''Cannot read properties of undefined (reading 'firstName')''"

text \<open>
  Each asynchronous action is its synchronous part (\<open>_begin\<close>: \<open>Inl\<close> when the action
  ends there, \<open>Inr\<close> when its request is sent and it waits), the part from the
  \<^verbatim>\<open>await\<close> on (\<open>_resume\<close>), and the handler of its \<^verbatim>\<open>catch\<close> (\<open>_catch\<close>).
\<close>

definition login_catch :: "js_error \<Rightarrow> world \<Rightarrow> action_result \<times> world" where
  "login_catch err w =
     (let message = or_default (or_else (error_response_message err) (error_message err))
                      ''Login failed'';
          w1 = dispatch (LOGIN_FAIL (Some message)) w;
          w2 = toast ToastError message w1
      in (Failure message, w2))"

definition login_begin :: "string \<Rightarrow> string \<Rightarrow> world \<Rightarrow> (action_result \<times> world) + world" where
  "login_begin email password w =
     (let w1 = dispatch USER_LOADING w
      in if email = [] \<or> password = []
         then Inl (login_catch (Error ''Email and password are required'') w1)
         else if \<not> regex_test emailRegex email
         then Inl (login_catch (Error ''Please enter a valid email address'') w1)
         else Inr (axios_send (Post ''/api/auth/login'' [trim (toLowerCase email), password])
                     w1))"

definition login_resume ::
    "bool \<Rightarrow> net_reply list \<Rightarrow> world \<Rightarrow> (action_result \<times> net_reply list \<times> world) option" where
  "login_resume auth rs w =
     (case axios_receive auth default_validateStatus rs w of
        None \<Rightarrow> None
      | Some (Inl err, rs', w') \<Rightarrow>
          (case login_catch err w' of (res, w'') \<Rightarrow> Some (res, rs', w''))
      | Some (Inr (s, d), rs', w') \<Rightarrow>
          (case (if truthy (d_token d) then setAuthToken (d_token d) w' else (False, w')) of
             (True, w'') \<Rightarrow>
               (let w3 = dispatch (LOGIN_SUCCESS d) w''
                in case d_user d of
                     Some u \<Rightarrow>
                       Some (Success u, rs',
                             toast ToastSuccess (''Welcome back, '' @ firstName u @ ''!'') w3)
                   | None \<Rightarrow>
                       (case login_catch (Error no_user_message) w3 of
                          (res, w4) \<Rightarrow> Some (res, rs', w4)))
           | (False, w'') \<Rightarrow>
               (case login_catch (Error ''Login succeeded but token is invalid'') w'' of
                  (res, w3) \<Rightarrow> Some (res, rs', w3))))"

definition login ::
    "bool \<Rightarrow> string \<Rightarrow> string \<Rightarrow> net_reply list \<Rightarrow> world \<Rightarrow>
       (action_result \<times> net_reply list \<times> world) option" where
  "login auth email password rs w =
     (case login_begin email password w of
        Inl (res, w') \<Rightarrow> Some (res, rs, w')
      | Inr w' \<Rightarrow> login_resume auth rs w')"

record register_form =
  f_email :: string
  f_password :: string
  f_firstName :: string
  f_lastName :: string
  f_role :: string

definition register_catch :: "js_error \<Rightarrow> world \<Rightarrow> action_result \<times> world" where
  "register_catch err w =
     (let message = or_default (or_else (error_response_message err) (error_message err))
                      ''Registration failed'';
          w1 = dispatch (REGISTER_FAIL (Some message)) w;
          w2 = toast ToastError message w1
      in (Failure message, w2))"

definition register_begin :: "register_form \<Rightarrow> world \<Rightarrow> (action_result \<times> world) + world" where
  "register_begin formData w =
     (let w1 = dispatch USER_LOADING w
      in if f_email formData = [] \<or> f_password formData = [] \<or> f_firstName formData = []
            \<or> f_lastName formData = [] \<or> f_role formData = []
         then Inl (register_catch (Error ''All required fields must be filled'') w1)
         else if \<not> regex_test emailRegex (f_email formData)
         then Inl (register_catch (Error ''Please enter a valid email address'') w1)
         else if length (f_password formData) < 8
         then Inl (register_catch (Error ''Password must be at least 8 characters long'') w1)
         else Inr (axios_send
                     (Post ''/api/auth/register''
                        [f_email formData, f_password formData, f_firstName formData,
                         f_lastName formData, f_role formData]) w1))"

definition register_resume ::
    "bool \<Rightarrow> net_reply list \<Rightarrow> world \<Rightarrow> (action_result \<times> net_reply list \<times> world) option" where
  "register_resume auth rs w =
     (case axios_receive auth default_validateStatus rs w of
        None \<Rightarrow> None
      | Some (Inl err, rs', w') \<Rightarrow>
          (case register_catch err w' of (res, w'') \<Rightarrow> Some (res, rs', w''))
      | Some (Inr (s, d), rs', w') \<Rightarrow>
          (case (if truthy (d_token d) then setAuthToken (d_token d) w' else (False, w')) of
             (True, w'') \<Rightarrow>
               (let w3 = dispatch (REGISTER_SUCCESS d) w''
                in case d_user d of
                     Some u \<Rightarrow>
                       Some (Success u, rs',
                             toast ToastSuccess
                               (''Welcome to the hospital management system, '' @ firstName u
                                  @ ''!'') w3)
                   | None \<Rightarrow>
                       (case register_catch (Error no_user_message) w3 of
                          (res, w4) \<Rightarrow> Some (res, rs', w4)))
           | (False, w'') \<Rightarrow>
               (case register_catch (Error ''Registration succeeded but token is invalid'') w'' of
                  (res, w3) \<Rightarrow> Some (res, rs', w3))))"

definition register ::
    "bool \<Rightarrow> register_form \<Rightarrow> net_reply list \<Rightarrow> world \<Rightarrow>
       (action_result \<times> net_reply list \<times> world) option" where
  "register auth formData rs w =
     (case register_begin formData w of
        Inl (res, w') \<Rightarrow> Some (res, rs, w')
      | Inr w' \<Rightarrow> register_resume auth rs w')"

text \<open>
  \<^verbatim>\<open>loadUser\<close>. Its request resolves for every status below 500
  (\<^verbatim>\<open>validateStatus: (status) => status < 500\<close>).
\<close>

definition loadUser_catch :: "js_error \<Rightarrow> world \<Rightarrow> world" where
  "loadUser_catch err w =
     (let w1 = (case error_status err of
                  Some status \<Rightarrow>
                    if status = 401
                    then w\<lparr> localStorage_token := None, authorization := None \<rparr>
                    else w
                | None \<Rightarrow> w)
      in dispatch (AUTH_ERROR (Some (or_default (error_response_message err)
                                       ''Authentication verification failed''))) w1)"

definition loadUser_begin :: "(string \<Rightarrow> jwt_payload option) \<Rightarrow> world \<Rightarrow> world + world" where
  "loadUser_begin parsePayload w =
     (let tok = localStorage_token w
      in if \<not> truthy tok then Inl (dispatch SET_INITIALIZED w)
         else if \<not> isTokenValid parsePayload (clock w) tok
         then Inl (dispatch SET_INITIALIZED
                     (w\<lparr> localStorage_token := None, authorization := None \<rparr>))
         else (case setAuthToken tok w of
                 (False, w1) \<Rightarrow> Inl (dispatch SET_INITIALIZED w1)
               | (True, w1) \<Rightarrow>
                   Inr (axios_send (Get ''/api/auth/me'') (dispatch USER_LOADING w1))))"

definition loadUser_resume ::
    "bool \<Rightarrow> net_reply list \<Rightarrow> world \<Rightarrow> (net_reply list \<times> world) option" where
  "loadUser_resume auth rs w =
     (case axios_receive auth (\<lambda>status. status < 500) rs w of
        None \<Rightarrow> None
      | Some (Inl err, rs', w') \<Rightarrow> Some (rs', loadUser_catch err w')
      | Some (Inr (s, d), rs', w') \<Rightarrow>
          if s = 200 \<and> d_user d \<noteq> None
          then Some (rs', dispatch (USER_LOADED (d_user d)) w')
          else Some (rs', loadUser_catch (Error ''Invalid user data received'') w'))"

definition loadUser ::
    "(string \<Rightarrow> jwt_payload option) \<Rightarrow> bool \<Rightarrow> net_reply list \<Rightarrow> world \<Rightarrow>
       (net_reply list \<times> world) option" where
  "loadUser parsePayload auth rs w =
     (case loadUser_begin parsePayload w of
        Inl w' \<Rightarrow> Some (rs, w')
      | Inr w' \<Rightarrow> loadUser_resume auth rs w')"

subsection \<open>The session timers\<close>

definition SESSION_TIMEOUT :: int where
  "SESSION_TIMEOUT = 30 * 60 * 1000"

definition WARNING_TIME :: int where
  "WARNING_TIME = 5 * 60 * 1000"

text \<open>
  The effect that manages the two timers, with the dependencies
  \<^verbatim>\<open>[state.isAuthenticated, state.lastActivity]\<close>: \<open>sessionEffect\<close> is its body,
  \<open>sessionEffect_cleanup\<close> the function it returns.
\<close>

definition sessionEffect :: "world \<Rightarrow> world" where
  "sessionEffect w =
     (if isAuthenticated (state w) \<and> truthy (token (state w)) then
        (let w1 = clear_ref (sessionTimeoutRef w) w;
             w2 = clear_ref (activityTimeoutRef w1) w1;
             (h1, w3) = setTimeout SessionWarning (SESSION_TIMEOUT - WARNING_TIME) w2;
             w4 = w3\<lparr> sessionTimeoutRef := Some h1 \<rparr>;
             (h2, w5) = setTimeout AutoLogout SESSION_TIMEOUT w4
         in w5\<lparr> activityTimeoutRef := Some h2 \<rparr>)
      else w)"

definition sessionEffect_cleanup :: "world \<Rightarrow> world" where
  "sessionEffect_cleanup w =
     (let w1 = clear_ref (sessionTimeoutRef w) w
      in clear_ref (activityTimeoutRef w1) w1)"

text \<open>What the two timers do when they fire.\<close>

fun run_callback :: "callback \<Rightarrow> world \<Rightarrow> world" where
  "run_callback SessionWarning w =
     toast ToastError ''Your session will expire in 5 minutes. Please save your work.''
       (dispatch SESSION_WARNING w)"
| "run_callback AutoLogout w =
     toast ToastError ''Session expired due to inactivity. Please log in again.''
       (logoutSilent w)"

text \<open>
  The rule of the framework for this effect: after an event has changed the state,
  the component renders again, and when one of the two dependencies differs from the
  render before, the cleanup of the old effect runs and then the effect. Each event
  below is taken together with that render.
\<close>

definition commit :: "world \<Rightarrow> world \<Rightarrow> world" where
  "commit rendered w =
     (if isAuthenticated (state w) \<noteq> isAuthenticated (state rendered)
         \<or> lastActivity (state w) \<noteq> lastActivity (state rendered)
      then sessionEffect (sessionEffect_cleanup w)
      else w)"

text \<open>
  The events of a mounted provider, as far as the reducer state and the timers go:
  an action reaches the reducer, a token is passed to \<open>setAuthToken\<close>, one of the two
  logouts is called, time passes, a pending timeout that is due fires.
  \<open>updateActivity\<close> is \<open>Act UPDATE_ACTIVITY\<close>.
\<close>

datatype event =
    Act action
  | SetAuthToken "string option"
  | Logout
  | LogoutSilent
  | Tick nat
  | Fire nat

fun step :: "event \<Rightarrow> world \<Rightarrow> world" where
  "step (Act a) w = commit w (dispatch a w)"
| "step (SetAuthToken tok) w = snd (setAuthToken tok w)"
| "step Logout w = commit w (logout w)"
| "step LogoutSilent w = commit w (logoutSilent w)"
| "step (Tick d) w = w\<lparr> clock := clock w + int d \<rparr>"
| "step (Fire h) w =
     (case filter (\<lambda>t. timer_id t = h) (timeouts w) of
        [] \<Rightarrow> w
      | t # ts \<Rightarrow>
          if due t \<le> clock w
          then commit w (run_callback (callback t) (clearTimeout h w))
          else w)"

definition run :: "event list \<Rightarrow> world \<Rightarrow> world" where
  "run es w = foldl (\<lambda>v e. step e v) w es"

text \<open>The provider mounts: the initial state, no timer, and the effect runs once.\<close>

definition mount :: "string option \<Rightarrow> int \<Rightarrow> world" where
  "mount stored now =
     sessionEffect
       \<lparr> state = initialState stored now, clock = now, localStorage_token = stored,
         authorization = None, sessionTimeoutRef = None, activityTimeoutRef = None,
         timeouts = [], next_handle = 1, toasts = [], requests = [] \<rparr>"

text \<open>The pending timeouts of one kind, and the kind and due time of each pending one.\<close>

definition active :: "callback \<Rightarrow> world \<Rightarrow> timeout list" where
  "active k w = filter (\<lambda>t. callback t = k) (timeouts w)"

definition schedule :: "world \<Rightarrow> (callback \<times> int) list" where
  "schedule w = map (\<lambda>t. (callback t, due t)) (timeouts w)"

text \<open>
  Every pending timeout is the one its reference holds, and handles are never reused.
\<close>

definition timers_ok :: "world \<Rightarrow> bool" where
  "timers_ok w =
     ((\<forall>t \<in> set (timeouts w).
         (case callback t of
            SessionWarning \<Rightarrow> sessionTimeoutRef w = Some (timer_id t)
          | AutoLogout \<Rightarrow> activityTimeoutRef w = Some (timer_id t)))
      \<and> distinct (map timer_id (timeouts w)))"

text \<open>A session that is not authenticated holds no user.\<close>

definition user_only_when_authenticated :: "world \<Rightarrow> bool" where
  "user_only_when_authenticated w =
     (isAuthenticated (state w) \<or> user (state w) = None)"

text \<open>
  Observations on a run: the refresh requests sent so far, the status of a reply, and
  the replies with status 401 in a list.
\<close>

definition refresh_attempts :: "world \<Rightarrow> nat" where
  "refresh_attempts w = count_list (requests w) (Post ''/api/auth/refresh'' [])"

definition reply_status :: "net_reply \<Rightarrow> nat option" where
  "reply_status r = (case outcome r of Response s d \<Rightarrow> Some s | NoResponse c m \<Rightarrow> None)"

definition count_401 :: "net_reply list \<Rightarrow> nat" where
  "count_401 rs = length (filter (\<lambda>r. reply_status r = Some 401) rs)"

subsection \<open>Sample inputs\<close>

definition no_data :: resp_data where
  "no_data = \<lparr> d_token = None, d_user = None, d_expiresIn = None, d_message = None \<rparr>"

definition sample_user :: user_rec where
  "sample_user = \<lparr> firstName = ''Ann'', role = Some ''admin'' \<rparr>"

text \<open>A session after a login at time 0, without timers.\<close>

definition signed_in :: world where
  "signed_in =
     \<lparr> state = \<lparr> user = Some sample_user, token = Some ''h.p.s'', isAuthenticated = True,
                 loading = False, error = None, isInitialized = True,
                 sessionExpiry = None, lastActivity = 0 \<rparr>,
       clock = 0, localStorage_token = Some ''h.p.s'',
       authorization = Some ''Bearer h.p.s'', sessionTimeoutRef = None,
       activityTimeoutRef = None, timeouts = [], next_handle = 1, toasts = [],
       requests = [] \<rparr>"

definition reply_401 :: net_reply where
  "reply_401 = \<lparr> latency = 20, outcome = Response 401 no_data \<rparr>"

definition reply_500 :: net_reply where
  "reply_500 = \<lparr> latency = 20, outcome = Response 500 no_data \<rparr>"

definition reply_token :: net_reply where
  "reply_token =
     \<lparr> latency = 20,
       outcome = Response 200 (no_data\<lparr> d_token := Some ''n.e.w'', d_expiresIn := Some 3600 \<rparr>) \<rparr>"

definition rejected_401 :: js_error where
  "rejected_401 = AxiosError (Some (401, no_data)) None ''Request failed with status code 401''"

text \<open>
  A token whose payload segment is the base64 text of \<^verbatim>\<open>{"exp":9999999999}\<close>, and a
  decoder that knows this segment and the one of \<^verbatim>\<open>{"exp":1}\<close>.
\<close>

definition sample_token :: string where
  "sample_token = ''eyJhbGciOiJIUzI1NiJ9.eyJleHAiOjk5OTk5OTk5OTl9.c2ln''"

definition sample_parsePayload :: "string \<Rightarrow> jwt_payload option" where
  "sample_parsePayload seg =
     (if seg = ''eyJleHAiOjk5OTk5OTk5OTl9'' then Some \<lparr> exp_claim = Some 9999999999 \<rparr>
      else if seg = ''eyJleHAiOjF9'' then Some \<lparr> exp_claim = Some 1 \<rparr>
      else None)"

text \<open>A page that has just loaded with a token in the local storage, before \<open>loadUser\<close>.\<close>

definition starting :: world where
  "starting =
     \<lparr> state = initialState (Some sample_token) 1700000000000,
       clock = 1700000000000, localStorage_token = Some sample_token, authorization = None,
       sessionTimeoutRef = None, activityTimeoutRef = None, timeouts = [],
       next_handle = 1, toasts = [], requests = [] \<rparr>"

text \<open>A page without a session, ready for a login.\<close>

definition signed_out :: world where
  "signed_out =
     \<lparr> state = \<lparr> user = None, token = None, isAuthenticated = False,
                 loading = False, error = None, isInitialized = True,
                 sessionExpiry = None, lastActivity = 0 \<rparr>,
       clock = 0, localStorage_token = None, authorization = None,
       sessionTimeoutRef = None, activityTimeoutRef = None, timeouts = [],
       next_handle = 1, toasts = [], requests = [] \<rparr>"

definition reply_login :: net_reply where
  "reply_login =
     \<lparr> latency = 20,
       outcome = Response 200 \<lparr> d_token = Some ''n.e.w'', d_user = Some sample_user,
                                d_expiresIn = Some 3600, d_message = None \<rparr> \<rparr>"

definition reply_timeout :: net_reply where
  "reply_timeout =
     \<lparr> latency = 10000,
       outcome = NoResponse (Some ''ECONNABORTED'') ''timeout of 10000ms exceeded'' \<rparr>"

text \<open>
  A session that was opened at time 0 and left alone until its warning timer fired,
  25 minutes later.
\<close>

definition login_data :: resp_data where
  "login_data = \<lparr> d_token = Some ''n.e.w'', d_user = Some sample_user,
                  d_expiresIn = Some 3600, d_message = None \<rparr>"

definition warned_session :: world where
  "warned_session =
     run [SetAuthToken (Some ''n.e.w''), Act (LOGIN_SUCCESS login_data), Tick 1500000, Fire 1]
       (mount None 0)"

text \<open>
  A page that loaded with a token: the \<open>loadUser\<close> of the mount fails with a server
  error, which leaves the token persisted and attached and the token of the state
  null; five seconds later a call that loads the user succeeds (\<open>updateProfile\<close>, or
  \<open>loadUser\<close> again) and dispatches \<open>USER_LOADED\<close>.
\<close>

definition tokenless_session :: world where
  "tokenless_session =
     run [Act (AUTH_ERROR (Some ''Authentication verification failed'')), Tick 5000,
          Act (USER_LOADED (Some sample_user))]
       (mount (Some sample_token) 0)"

section \<open>Properties\<close>

subsection \<open>What each operation leaves alone\<close>

lemma clear_ref_fields [simp]:
  "state (clear_ref r w) = state w"
  "clock (clear_ref r w) = clock w"
  "localStorage_token (clear_ref r w) = localStorage_token w"
  "authorization (clear_ref r w) = authorization w"
  "sessionTimeoutRef (clear_ref r w) = sessionTimeoutRef w"
  "activityTimeoutRef (clear_ref r w) = activityTimeoutRef w"
  "next_handle (clear_ref r w) = next_handle w"
  "toasts (clear_ref r w) = toasts w"
  "requests (clear_ref r w) = requests w"
  by (simp_all add: clear_ref_def clearTimeout_def split: option.splits)

lemma dispatch_fields [simp]:
  "state (dispatch a w) = authReducer (clock w) (state w) a"
  "clock (dispatch a w) = clock w"
  "localStorage_token (dispatch a w) = localStorage_token w"
  "authorization (dispatch a w) = authorization w"
  "sessionTimeoutRef (dispatch a w) = sessionTimeoutRef w"
  "activityTimeoutRef (dispatch a w) = activityTimeoutRef w"
  "timeouts (dispatch a w) = timeouts w"
  "next_handle (dispatch a w) = next_handle w"
  "toasts (dispatch a w) = toasts w"
  "requests (dispatch a w) = requests w"
  by (simp_all add: dispatch_def)

lemma toast_fields [simp]:
  "state (toast k m w) = state w"
  "clock (toast k m w) = clock w"
  "localStorage_token (toast k m w) = localStorage_token w"
  "authorization (toast k m w) = authorization w"
  "sessionTimeoutRef (toast k m w) = sessionTimeoutRef w"
  "activityTimeoutRef (toast k m w) = activityTimeoutRef w"
  "timeouts (toast k m w) = timeouts w"
  "next_handle (toast k m w) = next_handle w"
  "toasts (toast k m w) = toasts w @ [(k, m)]"
  "requests (toast k m w) = requests w"
  by (simp_all add: toast_def)

lemma logoutSilent_fields [simp]:
  "state (logoutSilent w) = authReducer (clock w) (state w) LOGOUT_SILENT"
  "clock (logoutSilent w) = clock w"
  "localStorage_token (logoutSilent w) = None"
  "authorization (logoutSilent w) = None"
  "sessionTimeoutRef (logoutSilent w) = sessionTimeoutRef w"
  "activityTimeoutRef (logoutSilent w) = activityTimeoutRef w"
  "next_handle (logoutSilent w) = next_handle w"
  "toasts (logoutSilent w) = toasts w"
  "requests (logoutSilent w) = requests w"
  by (simp_all add: logoutSilent_def Let_def)

lemma axios_send_fields [simp]:
  "state (axios_send q w) = state w"
  "clock (axios_send q w) = clock w"
  "localStorage_token (axios_send q w) = localStorage_token w"
  "authorization (axios_send q w) = authorization w"
  "sessionTimeoutRef (axios_send q w) = sessionTimeoutRef w"
  "activityTimeoutRef (axios_send q w) = activityTimeoutRef w"
  "timeouts (axios_send q w) = timeouts w"
  "next_handle (axios_send q w) = next_handle w"
  "toasts (axios_send q w) = toasts w"
  "requests (axios_send q w) = requests w @ [q]"
  by (simp_all add: axios_send_def)

lemma await_fields [simp]:
  "state (await r w) = state w"
  "clock (await r w) = clock w + int (latency r)"
  "localStorage_token (await r w) = localStorage_token w"
  "authorization (await r w) = authorization w"
  "sessionTimeoutRef (await r w) = sessionTimeoutRef w"
  "activityTimeoutRef (await r w) = activityTimeoutRef w"
  "timeouts (await r w) = timeouts w"
  "next_handle (await r w) = next_handle w"
  "toasts (await r w) = toasts w"
  "requests (await r w) = requests w"
  by (simp_all add: await_def)

lemma setAuthToken_same [simp]:
  "state (snd (setAuthToken t w)) = state w"
  "clock (snd (setAuthToken t w)) = clock w"
  "sessionTimeoutRef (snd (setAuthToken t w)) = sessionTimeoutRef w"
  "activityTimeoutRef (snd (setAuthToken t w)) = activityTimeoutRef w"
  "timeouts (snd (setAuthToken t w)) = timeouts w"
  "next_handle (snd (setAuthToken t w)) = next_handle w"
  "toasts (snd (setAuthToken t w)) = toasts w"
  "requests (snd (setAuthToken t w)) = requests w"
  by (simp_all add: setAuthToken_def Let_def split: option.splits)

lemma setAuthToken_True:
  "setAuthToken tok w = (True, w') \<Longrightarrow>
     \<exists>t. tok = Some t \<and> t \<noteq> [] \<and> length (js_split (CHR ''.'') t) = 3
       \<and> w' = w\<lparr> authorization := Some (''Bearer '' @ t), localStorage_token := Some t \<rparr>"
  by (auto simp: setAuthToken_def Let_def split: option.splits if_splits)

lemma refresh_attempts_simps [simp]:
  "refresh_attempts (logoutSilent w) = refresh_attempts w"
  "refresh_attempts (dispatch a w) = refresh_attempts w"
  "refresh_attempts (toast k m w) = refresh_attempts w"
  "refresh_attempts (await r w) = refresh_attempts w"
  "refresh_attempts (snd (setAuthToken t w)) = refresh_attempts w"
  "refresh_attempts (axios_send (Post ''/api/auth/refresh'' []) w) = Suc (refresh_attempts w)"
  by (simp_all add: refresh_attempts_def)

lemma settle_default_401:
  "settle default_validateStatus (outcome r) = Inl err \<Longrightarrow>
     (error_status err = Some 401) = (reply_status r = Some 401)"
  by (auto simp: settle_def reply_status_def split: net_outcome.splits if_splits)

lemma settle_default_ok:
  "settle default_validateStatus (outcome r) = Inr res \<Longrightarrow> reply_status r \<noteq> Some 401"
  by (auto simp: settle_def reply_status_def default_validateStatus_def
      split: net_outcome.splits if_splits)

subsection \<open>The refresh flow on a 401\<close>

lemmas flow_simps = axios_receive.simps interceptor_rejected.simps refreshToken.simps
  refreshToken_resume.simps

lemma setAuthToken_attempts:
  "setAuthToken t w = (b, w') \<Longrightarrow> refresh_attempts w' = refresh_attempts w"
  using refresh_attempts_simps(5) [of t w] by simp

lemma count_receive:
  "axios_receive auth vs rs w = Some (res, rs', w') \<Longrightarrow> auth \<Longrightarrow> vs = default_validateStatus \<Longrightarrow>
     \<exists>c. rs = c @ rs' \<and> refresh_attempts w' = refresh_attempts w + count_401 c"
and count_interceptor:
  "interceptor_rejected auth err rs w = Some (rs1, w1) \<Longrightarrow> auth \<Longrightarrow>
     \<exists>c. rs = c @ rs1 \<and> refresh_attempts w1 = refresh_attempts w +
        (if error_status err = Some 401 then 1 + count_401 c else 0)"
and count_refresh:
  "refreshToken auth rs w = Some (ok, rs2, w2) \<Longrightarrow> auth \<Longrightarrow>
     \<exists>c. rs = c @ rs2 \<and> refresh_attempts w2 = refresh_attempts w + 1 + count_401 c"
and count_resume:
  "refreshToken_resume auth rs w = Some (ok3, rs3, w3) \<Longrightarrow> auth \<Longrightarrow>
     \<exists>c. rs = c @ rs3 \<and> refresh_attempts w3 = refresh_attempts w + count_401 c"
proof (induction auth vs rs w and auth err rs w and auth rs w and auth rs w
    arbitrary: res rs' w' and rs1 w1 and ok rs2 w2 and ok3 rs3 w3
    rule: axios_receive_interceptor_rejected_refreshToken_refreshToken_resume.induct)
  case (1 auth validateStatus w)
  then show ?case by (simp add: flow_simps)
next
  case (2 auth validateStatus r rs w)
  show ?case
  proof (cases "settle validateStatus (outcome r)")
    case (Inr a)
    with "2.prems" have e: "res = Inr a" "rs' = rs" "w' = await r w"
      by (auto simp: flow_simps)
    from Inr "2.prems" have "reply_status r \<noteq> Some 401"
      using settle_default_ok by blast
    with e show ?thesis
      by (intro exI [of _ "[r]"]) (simp add: count_401_def)
  next
    case (Inl err)
    with "2.prems" obtain rsa wa where
      i: "interceptor_rejected auth err rs (await r w) = Some (rsa, wa)"
      and e: "res = Inl err" "rs' = rsa" "w' = wa"
      by (auto simp: flow_simps split: option.splits)
    from "2.IH" [OF Inl i] "2.prems" obtain c where
      c: "rs = c @ rsa" "refresh_attempts wa = refresh_attempts (await r w) +
        (if error_status err = Some 401 then 1 + count_401 c else 0)"
      by blast
    show ?thesis
    proof (cases "error_status err = Some 401")
      case True
      with Inl "2.prems" have "reply_status r = Some 401"
        using settle_default_401 by blast
      with c e True show ?thesis
        by (intro exI [of _ "r # c"]) (simp add: count_401_def)
    next
      case False
      with i have "rsa = rs" "wa = await r w" by (auto simp: flow_simps)
      moreover from False Inl "2.prems" have "reply_status r \<noteq> Some 401"
        using settle_default_401 by blast
      ultimately show ?thesis using e
        by (intro exI [of _ "[r]"]) (simp add: count_401_def)
    qed
  qed
next
  case (3 auth err rs w)
  show ?case
  proof (cases "error_status err = Some 401")
    case True
    with "3.prems" obtain ok rsa wa where
      r: "refreshToken auth rs w = Some (ok, rsa, wa)" and "rs1 = rsa"
      and w1: "w1 = (if \<not> ok then toast ToastError ''Session expired. Please log in again.'' (logoutSilent wa) else wa)"
      by (auto simp: flow_simps split: option.splits if_splits)
    from "3.IH" [OF _ r] True "3.prems" obtain c where
      "rs = c @ rsa" "refresh_attempts wa = refresh_attempts w + 1 + count_401 c"
      by auto
    with True \<open>rs1 = rsa\<close> w1 show ?thesis
      by (intro exI [of _ c]) simp
  next
    case False
    with "3.prems" show ?thesis by (auto simp: flow_simps)
  qed
next
  case (4 auth rs w)
  from "4.prems"(1) have
    "refreshToken_resume auth rs (axios_send (Post ''/api/auth/refresh'' []) w) = Some (ok, rs2, w2)"
    by (simp only: refreshToken.simps)
  from "4.IH" [OF this] "4.prems" show ?case
    by auto
next
  case (5 auth rs w)
  from "5.prems" obtain res rsa wa where
    a: "axios_receive auth default_validateStatus rs w = Some (res, rsa, wa)"
    by (auto simp: refreshToken_resume.simps split: option.splits)
  from "5.IH" [OF a] "5.prems" obtain c where
    c: "rs = c @ rsa" "refresh_attempts wa = refresh_attempts w + count_401 c"
    by auto
  from "5.prems" a have "rs3 = rsa \<and> refresh_attempts w3 = refresh_attempts wa"
    by (auto simp: refreshToken_resume.simps split: sum.splits if_splits prod.splits bool.splits
        dest!: setAuthToken_attempts)
  with c show ?case by auto
qed

lemmas sample_defs = no_data_def sample_user_def signed_in_def reply_401_def reply_500_def
  reply_token_def rejected_401_def

lemmas run_defs = axios_receive.simps interceptor_rejected.simps refreshToken.simps
  refreshToken_resume.simps settle_def default_validateStatus_def truthy_def setAuthToken_def Let_def
  dispatch_def axios_send_def await_def logoutSilent_def logout_def clear_ref_def toast_def
  clearTimeout_def refresh_attempts_def

lemma settle_Inr:
  "settle vs out = Inr (s, d) \<Longrightarrow> out = Response s d \<and> vs s"
  by (auto simp: settle_def split: net_outcome.splits if_splits)

lemma refreshToken_resume_success:
  assumes "refreshToken_resume auth rs w = Some (True, rs', w1)"
  shows "\<exists>r status d t. rs = r # rs' \<and> outcome r = Response status d
           \<and> default_validateStatus status \<and> d_token d = Some t \<and> t \<noteq> []
           \<and> length (js_split (CHR ''.'') t) = 3
           \<and> w1 = dispatch (TOKEN_REFRESH d)
                  ((await r w)\<lparr> authorization := Some (''Bearer '' @ t),
                                localStorage_token := Some t \<rparr>)"
proof (cases rs)
  case Nil
  with assms show ?thesis by (simp add: flow_simps)
next
  case (Cons r rs0)
  show ?thesis
  proof (cases "settle default_validateStatus (outcome r)")
    case (Inl err)
    with assms Cons show ?thesis
      by (auto simp: flow_simps split: option.splits)
  next
    case (Inr res)
    obtain status d where res: "res = (status, d)" by (cases res)
    from Inr res have o: "outcome r = Response status d" "default_validateStatus status"
      using settle_Inr by blast+
    from assms Cons Inr res have t: "truthy (d_token d)"
      and "\<exists>w2. setAuthToken (d_token d) (await r w) = (True, w2)
             \<and> w1 = dispatch (TOKEN_REFRESH d) w2" and "rs' = rs0"
      by (auto simp: flow_simps split: if_splits prod.splits bool.splits)
    then obtain w2 where w2: "setAuthToken (d_token d) (await r w) = (True, w2)"
      "w1 = dispatch (TOKEN_REFRESH d) w2" by blast
    from setAuthToken_True [OF w2(1)] obtain t where
      "d_token d = Some t" "t \<noteq> []" "length (js_split (CHR ''.'') t) = 3"
      "w2 = (await r w)\<lparr> authorization := Some (''Bearer '' @ t), localStorage_token := Some t \<rparr>"
      by blast
    with o w2 Cons \<open>rs' = rs0\<close> show ?thesis by blast
  qed
qed

text \<open>
  The handler on a chain of replies, when it settles: the refresh requests sent are
  as many as the 401 responses handled, the original one and every 401 that answered
  a refresh request.
\<close>

lemma refresh_chain:
  assumes "error_status err = Some 401" and "auth" and "isAuthenticated (state w)"
    and "interceptor_rejected auth err rs w = Some (rs', w')"
  shows "\<exists>success w1 consumed.
      refreshToken auth rs w = Some (success, rs', w1) \<and> rs = consumed @ rs'
      \<and> refresh_attempts w' = refresh_attempts w + 1 + count_401 consumed
      \<and> (success \<longrightarrow>
            w' = w1 \<and> consumed = [hd rs] \<and> isAuthenticated (state w')
            \<and> (\<exists>status d t. outcome (hd rs) = Response status d \<and> d_token d = Some t
                  \<and> token (state w') = Some t
                  \<and> authorization w' = Some (''Bearer '' @ t)
                  \<and> localStorage_token w' = Some t))
      \<and> (\<not> success \<longrightarrow>
            \<not> isAuthenticated (state w') \<and> token (state w') = None \<and> user (state w') = None
            \<and> localStorage_token w' = None \<and> authorization w' = None
            \<and> last (toasts w') = (ToastError, ''Session expired. Please log in again.''))"
proof -
  from assms obtain success w1 where
    r: "refreshToken auth rs w = Some (success, rs', w1)"
    and w': "w' = (if \<not> success
                  then toast ToastError ''Session expired. Please log in again.'' (logoutSilent w1)
                  else w1)"
    by (auto simp: interceptor_rejected.simps split: option.splits if_splits)
  from count_refresh [OF r \<open>auth\<close>] obtain consumed where
    c: "rs = consumed @ rs'" "refresh_attempts w1 = refresh_attempts w + 1 + count_401 consumed"
    by blast
  have n: "refresh_attempts w' = refresh_attempts w + 1 + count_401 consumed"
    using c w' by simp
  have f: "\<not> success \<Longrightarrow>
            \<not> isAuthenticated (state w') \<and> token (state w') = None \<and> user (state w') = None
            \<and> localStorage_token w' = None \<and> authorization w' = None
            \<and> last (toasts w') = (ToastError, ''Session expired. Please log in again.'')"
    using w' by simp
  have s: "success \<Longrightarrow> w' = w1 \<and> consumed = [hd rs] \<and> isAuthenticated (state w')
            \<and> (\<exists>status d t. outcome (hd rs) = Response status d \<and> d_token d = Some t
                  \<and> token (state w') = Some t
                  \<and> authorization w' = Some (''Bearer '' @ t)
                  \<and> localStorage_token w' = Some t)"
  proof -
    assume ok: success
    with r have "refreshToken_resume auth rs (axios_send (Post ''/api/auth/refresh'' []) w)
        = Some (True, rs', w1)"
      by (simp only: refreshToken.simps)
    from refreshToken_resume_success [OF this] obtain r0 status d t where
      x: "rs = r0 # rs'" "outcome r0 = Response status d" "d_token d = Some t"
      "w1 = dispatch (TOKEN_REFRESH d)
             ((await r0 (axios_send (Post ''/api/auth/refresh'' []) w))\<lparr>
                 authorization := Some (''Bearer '' @ t), localStorage_token := Some t \<rparr>)"
      by blast
    from x(1) c(1) have "consumed = [hd rs]" by simp
    moreover from ok w' have "w' = w1" by simp
    moreover from x(4) assms(3) have "isAuthenticated (state w1)" "token (state w1) = Some t"
      "authorization w1 = Some (''Bearer '' @ t)" "localStorage_token w1 = Some t"
      by (simp_all add: x(3))
    ultimately show ?thesis using x(1,2,3) by auto
  qed
  from r c n f s show ?thesis by blast
qed





text \<open>
  Claim C2 asks that a 401 received by the refresh call itself starts no further
  refresh. The refresh request goes through the client that carries the interceptor,
  so it does: with two 401 replies to refresh requests and then a 500, three refresh
  requests are sent for one rejected call.
\<close>

theorem refresh_recurses:
  "\<exists>w'. interceptor_rejected True rejected_401 [reply_401, reply_401, reply_500] signed_in
          = Some ([], w')
      \<and> refresh_attempts w' = 3"
  by (simp add: sample_defs run_defs)

text \<open>As long as every reply to a refresh request is a 401, the handler never returns.\<close>

lemma refresh_never_settles:
  "auth \<Longrightarrow> error_status err = Some 401 \<Longrightarrow> \<forall>r \<in> set rs. reply_status r = Some 401 \<Longrightarrow>
     interceptor_rejected auth err rs w = None"
proof (induction rs arbitrary: err w)
  case Nil
  then show ?case by (simp add: flow_simps)
next
  case (Cons r rs)
  from Cons.prems obtain d where o: "outcome r = Response 401 d"
    by (auto simp: reply_status_def split: net_outcome.splits)
  let ?e = "AxiosError (Some (401, d)) None (''Request failed with status code '' @ show_nat 401)"
  have s: "settle default_validateStatus (outcome r) = Inl ?e"
    by (simp add: o settle_def default_validateStatus_def)
  have "interceptor_rejected auth ?e rs w' = None" for w'
    using Cons.IH [of ?e w'] Cons.prems by simp
  with Cons.prems s show ?case
    by (simp add: flow_simps)
qed

subsection \<open>Logging out, aloud and silently\<close>

lemma logout_fields [simp]:
  "state (logout w) = authReducer (clock w) (state w) LOGOUT"
  "clock (logout w) = clock w"
  "localStorage_token (logout w) = None"
  "authorization (logout w) = None"
  "sessionTimeoutRef (logout w) = sessionTimeoutRef w"
  "activityTimeoutRef (logout w) = activityTimeoutRef w"
  "next_handle (logout w) = next_handle w"
  "toasts (logout w) = toasts w @ [(ToastSuccess, ''Logged out successfully'')]"
  "requests (logout w) = requests w"
  by (simp_all add: logout_def Let_def)

lemma logout_timeouts:
  "timeouts (logout w) = timeouts (logoutSilent w)"
  by (simp add: logout_def logoutSilent_def Let_def clear_ref_def clearTimeout_def dispatch_def
      toast_def split: option.splits)

text \<open>
  Claim C6, amended. \<open>logoutSilent\<close> and \<open>logout\<close> leave the same persisted token,
  attached credential, timers and timer references, and the same session fields
  except \<open>isInitialized\<close>, which \<open>logout\<close> sets and \<open>logoutSilent\<close> leaves as it
  was: on an initialised session the states are equal. \<open>logout\<close> adds its success
  toast, \<open>logoutSilent\<close> adds none.
\<close>

theorem logout_vs_logoutSilent:
  "localStorage_token (logout w) = localStorage_token (logoutSilent w)
   \<and> authorization (logout w) = authorization (logoutSilent w)
   \<and> timeouts (logout w) = timeouts (logoutSilent w)
   \<and> sessionTimeoutRef (logout w) = sessionTimeoutRef (logoutSilent w)
   \<and> activityTimeoutRef (logout w) = activityTimeoutRef (logoutSilent w)
   \<and> state (logout w) = (state (logoutSilent w))\<lparr> isInitialized := True \<rparr>
   \<and> (isInitialized (state w) \<longrightarrow> state (logout w) = state (logoutSilent w))
   \<and> toasts (logout w) = toasts w @ [(ToastSuccess, ''Logged out successfully'')]
   \<and> toasts (logoutSilent w) = toasts w"
  by (simp add: logout_timeouts)

theorem logout_vs_logoutSilent_witness:
  "isInitialized (state signed_in) \<and> state (logout signed_in) = state (logoutSilent signed_in)
   \<and> toasts (logout signed_in) = [(ToastSuccess, ''Logged out successfully'')]
   \<and> toasts (logoutSilent signed_in) = []"
proof -
  have i: "isInitialized (state signed_in)"
    by (simp add: signed_in_def)
  have "toasts signed_in = []"
    by (simp add: signed_in_def)
  with i logout_vs_logoutSilent [of signed_in] show ?thesis
    by simp
qed

text \<open>
  Claim C6 as stated fails before initialisation: on a page that has just loaded,
  \<open>logout\<close> leaves the session initialised and \<open>logoutSilent\<close> does not.
\<close>

theorem logoutSilent_differs:
  "isInitialized (state (logout starting)) \<and> \<not> isInitialized (state (logoutSilent starting))"
  by (simp add: starting_def initialState_def)

subsection \<open>A refresh that completes after a logout\<close>

text \<open>
  Claim C8, amended. Nothing checks the session before the result of a refresh is
  applied: when the reply to a refresh request arrives after \<open>logout\<close> and carries a
  well-formed token, that token becomes the attached credential, the persisted token
  and the session's token; \<open>isAuthenticated\<close> stays false, since \<open>TOKEN_REFRESH\<close>
  does not set it.
\<close>

theorem stale_refresh_applied:
  assumes "outcome r = Response status d" and "default_validateStatus status"
    and "d_token d = Some t" and "t \<noteq> []" and "length (js_split (CHR ''.'') t) = 3"
  shows "\<exists>w'. refreshToken_resume auth (r # rs) (logout w) = Some (True, rs, w')
           \<and> authorization w' = Some (''Bearer '' @ t)
           \<and> localStorage_token w' = Some t
           \<and> token (state w') = Some t
           \<and> \<not> isAuthenticated (state w')"
  using assms
  by (simp add: flow_simps settle_def truthy_def setAuthToken_def dispatch_def)

theorem stale_refresh_applied_witness:
  "\<exists>w'. refreshToken_resume True [reply_token]
           (logout (axios_send (Post ''/api/auth/refresh'' []) signed_in)) = Some (True, [], w')
      \<and> authorization w' = Some ''Bearer n.e.w''
      \<and> localStorage_token w' = Some ''n.e.w''
      \<and> token (state w') = Some ''n.e.w''
      \<and> \<not> isAuthenticated (state w')"
proof -
  have "outcome reply_token
      = Response 200 (no_data\<lparr> d_token := Some ''n.e.w'', d_expiresIn := Some 3600 \<rparr>)"
    by (simp add: reply_token_def)
  from stale_refresh_applied [OF this, of "''n.e.w''" True "[]"
      "axios_send (Post ''/api/auth/refresh'' []) signed_in"]
  show ?thesis
    by (simp add: default_validateStatus_def)
qed

text \<open>
  Claim C8 as stated fails: a refresh request is sent from a live session, the user
  logs out (which detaches the credential), then the reply arrives and a token is
  attached again.
\<close>

theorem logout_then_refresh_reattaches:
  "authorization (logout (axios_send (Post ''/api/auth/refresh'' []) signed_in)) = None
   \<and> (\<exists>w'. refreshToken_resume True [reply_token]
              (logout (axios_send (Post ''/api/auth/refresh'' []) signed_in))
            = Some (True, [], w')
         \<and> authorization w' = Some ''Bearer n.e.w''
         \<and> localStorage_token w' = Some ''n.e.w''
         \<and> token (state w') = Some ''n.e.w'')"
  by (simp add: sample_defs run_defs)

subsection \<open>Logging in\<close>

lemma login_catch_not_Success [simp]:
  "login_catch err w \<noteq> (Success u, w')"
  by (simp add: login_catch_def Let_def)

lemma login_begin_not_Success [simp]:
  "login_begin email password w \<noteq> Inl (Success u, w')"
  by (simp add: login_begin_def Let_def)

lemma login_success:
  assumes "login auth email password rs w = Some (Success u, rs', w')"
  shows "\<exists>r status d t w1.
           rs = r # rs' \<and> outcome r = Response status d \<and> default_validateStatus status
           \<and> d_token d = Some t \<and> t \<noteq> [] \<and> length (js_split (CHR ''.'') t) = 3
           \<and> d_user d = Some u
           \<and> login_begin email password w = Inr w1
           \<and> w' = toast ToastSuccess (''Welcome back, '' @ firstName u @ ''!'')
                    (dispatch (LOGIN_SUCCESS d)
                       ((await r w1)\<lparr> authorization := Some (''Bearer '' @ t),
                                      localStorage_token := Some t \<rparr>))"
proof -
  from assms obtain w1 where
    b: "login_begin email password w = Inr w1"
    and l: "login_resume auth rs w1 = Some (Success u, rs', w')"
    by (auto simp: login_def split: sum.splits)
  from l obtain res rs1 w2 where
    a: "axios_receive auth default_validateStatus rs w1 = Some (res, rs1, w2)"
    by (auto simp: login_resume_def split: option.splits)
  with l obtain status d where res: "res = Inr (status, d)" and "rs1 = rs'"
    by (cases res) (auto simp: login_resume_def Let_def split: prod.splits bool.splits option.splits)
  from a res obtain r where r: "rs = r # rs1" "settle default_validateStatus (outcome r) = Inr (status, d)"
    "w2 = await r w1"
    by (cases rs) (auto simp: flow_simps split: sum.splits option.splits)
  from l a res have t: "truthy (d_token d)"
    by (auto simp: login_resume_def Let_def split: if_splits prod.splits)
  with l a res obtain w3 where s: "setAuthToken (d_token d) w2 = (True, w3)"
    and u: "d_user d = Some u"
    and w': "w' = toast ToastSuccess (''Welcome back, '' @ firstName u @ ''!'')
                    (dispatch (LOGIN_SUCCESS d) w3)"
    by (auto simp: login_resume_def Let_def split: prod.splits bool.splits option.splits)
  from setAuthToken_True [OF s] obtain t where
    "d_token d = Some t" "t \<noteq> []" "length (js_split (CHR ''.'') t) = 3"
    "w3 = w2\<lparr> authorization := Some (''Bearer '' @ t), localStorage_token := Some t \<rparr>"
    by blast
  with settle_Inr [OF r(2)] r u w' b \<open>rs1 = rs'\<close> show ?thesis
    by blast
qed

text \<open>
  Claim C9. A login succeeds only on a reply that carries a well-formed token and a
  user. The session is created when that reply is processed, at the time \<open>clock w'\<close>,
  which is also its \<open>lastActivity\<close>: if the reply declares a lifetime of 3600 seconds,
  \<open>sessionExpiry\<close> is that time plus 3600 seconds, to the millisecond; if it declares
  none, \<open>sessionExpiry\<close> is null.
\<close>

theorem login_records_expiry:
  assumes "login auth email password (r # rs) w = Some (Success u, rs', w')"
    and "outcome r = Response status d"
  shows "(d_expiresIn d = Some 3600 \<longrightarrow>
            sessionExpiry (state w') = Some (clock w' + 3600 * 1000))
       \<and> (d_expiresIn d = None \<longrightarrow> sessionExpiry (state w') = None)
       \<and> lastActivity (state w') = clock w'"
proof -
  from login_success [OF assms(1)] assms(2) obtain t w1 where
    "w' = toast ToastSuccess (''Welcome back, '' @ firstName u @ ''!'')
            (dispatch (LOGIN_SUCCESS d)
               ((await r w1)\<lparr> authorization := Some (''Bearer '' @ t),
                              localStorage_token := Some t \<rparr>))"
    by auto
  then show ?thesis
    by (simp add: expiry_of_def)
qed

lemmas login_defs = login_def login_begin_def login_resume_def login_catch_def or_default_def
  or_else_def emailRegex_def Plus_def not_space_at_def is_space_def trim_def toLowerCase_def

theorem login_records_expiry_witness:
  "\<exists>w'. login False ''a@b.com'' ''secret-password'' [reply_login] signed_out
          = Some (Success sample_user, [], w')
      \<and> d_expiresIn \<lparr> d_token = Some ''n.e.w'', d_user = Some sample_user,
                       d_expiresIn = Some 3600, d_message = None \<rparr> = Some 3600
      \<and> clock w' = 20
      \<and> sessionExpiry (state w') = Some 3600020
      \<and> lastActivity (state w') = 20"
proof -
  have "\<exists>w'. login False ''a@b.com'' ''secret-password'' [reply_login] signed_out
          = Some (Success sample_user, [], w') \<and> clock w' = 20"
    by (simp add: login_defs sample_defs reply_login_def signed_out_def run_defs)
  then obtain w' where
    l: "login False ''a@b.com'' ''secret-password'' [reply_login] signed_out
          = Some (Success sample_user, [], w')" and c: "clock w' = 20"
    by blast
  have o: "outcome reply_login = Response 200 \<lparr> d_token = Some ''n.e.w'', d_user = Some sample_user,
                       d_expiresIn = Some 3600, d_message = None \<rparr>"
    by (simp add: reply_login_def)
  from login_records_expiry [OF l o] l c show ?thesis
    by simp
qed

subsection \<open>Which tokens are accepted\<close>

lemma js_split_not_Nil [simp]: "js_split sep s \<noteq> []"
  by (induction s) (auto split: list.splits)

lemma length_js_split: "length (js_split sep s) = Suc (count_list s sep)"
  by (induction s) (auto split: list.splits)

lemma js_split_no_sep: "sep \<notin> set a \<Longrightarrow> js_split sep a = [a]"
  by (induction a) auto

lemma js_split_append:
  "sep \<notin> set a \<Longrightarrow> js_split sep (a @ sep # rest) = a # js_split sep rest"
  by (induction a) auto

lemma js_split_Cons:
  "js_split sep s = a # rest \<Longrightarrow>
     sep \<notin> set a \<and> (if rest = [] then s = a
                       else \<exists>s'. s = a @ sep # s' \<and> js_split sep s' = rest)"
proof (induction s arbitrary: a rest)
  case Nil
  then show ?case by simp
next
  case (Cons c s)
  show ?case
  proof (cases "c = sep")
    case True
    with Cons.prems show ?thesis by auto
  next
    case False
    with Cons.prems obtain b where b: "js_split sep s = b # rest" "a = c # b"
      by (auto split: list.splits)
    from Cons.IH [OF b(1)] False b(2) show ?thesis
      by auto
  qed
qed

lemma js_split_three:
  "(length (js_split sep t) = 3) =
     (\<exists>h p s. t = h @ sep # p @ sep # s \<and> sep \<notin> set h \<and> sep \<notin> set p \<and> sep \<notin> set s)"
proof
  assume "length (js_split sep t) = 3"
  then obtain h p s where l: "js_split sep t = [h, p, s]"
    by (auto simp: length_Suc_conv numeral_3_eq_3)
  from js_split_Cons [OF l] obtain t1 where
    1: "sep \<notin> set h" "t = h @ sep # t1" "js_split sep t1 = [p, s]" by auto
  from js_split_Cons [OF 1(3)] obtain t2 where
    2: "sep \<notin> set p" "t1 = p @ sep # t2" "js_split sep t2 = [s]" by auto
  from js_split_Cons [OF 2(3)] have "sep \<notin> set s" "t2 = s" by auto
  with 1 2 show "\<exists>h p s. t = h @ sep # p @ sep # s \<and> sep \<notin> set h \<and> sep \<notin> set p \<and> sep \<notin> set s"
    by auto
next
  assume "\<exists>h p s. t = h @ sep # p @ sep # s \<and> sep \<notin> set h \<and> sep \<notin> set p \<and> sep \<notin> set s"
  then show "length (js_split sep t) = 3"
    by (auto simp: js_split_append js_split_no_sep)
qed

lemma js_split_three_parts:
  "sep \<notin> set h \<Longrightarrow> sep \<notin> set p \<Longrightarrow> sep \<notin> set s \<Longrightarrow>
     js_split sep (h @ sep # p @ sep # s) = [h, p, s]"
  by (simp add: js_split_append js_split_no_sep)

lemma three_parts_unique:
  assumes "h @ sep # p @ sep # s = h' @ (sep :: char) # p' @ sep # s'"
    and "sep \<notin> set h" "sep \<notin> set p" "sep \<notin> set s"
    and "sep \<notin> set h'" "sep \<notin> set p'" "sep \<notin> set s'"
  shows "p = p'"
proof -
  have a: "js_split sep (h @ sep # p @ sep # s) = [h, p, s]"
    using assms(2-4) by (rule js_split_three_parts)
  have b: "js_split sep (h' @ sep # p' @ sep # s') = [h', p', s']"
    using assms(5-7) by (rule js_split_three_parts)
  from a have "js_split sep (h' @ sep # p' @ sep # s') = [h, p, s]"
    by (simp only: assms(1))
  with b show ?thesis by simp
qed

lemma isTokenValid_iff:
  "isTokenValid parsePayload now (Some t) =
     (\<exists>h p s payload e. t = h @ ''.'' @ p @ ''.'' @ s
        \<and> CHR ''.'' \<notin> set h \<and> CHR ''.'' \<notin> set p \<and> CHR ''.'' \<notin> set s
        \<and> parsePayload p = Some payload \<and> exp_claim payload = Some e
        \<and> of_int now / 1000 < e)"
proof (cases "length (js_split (CHR ''.'') t) = 3")
  case False
  then have "\<not> isTokenValid parsePayload now (Some t)"
    by (simp add: isTokenValid_def Let_def)
  moreover from False have "\<nexists>h p s. t = h @ ''.'' @ p @ ''.'' @ s
        \<and> CHR ''.'' \<notin> set h \<and> CHR ''.'' \<notin> set p \<and> CHR ''.'' \<notin> set s"
    by (simp add: js_split_three)
  ultimately show ?thesis by blast
next
  case True
  then obtain h p s where t: "t = h @ CHR ''.'' # p @ CHR ''.'' # s"
    "CHR ''.'' \<notin> set h" "CHR ''.'' \<notin> set p" "CHR ''.'' \<notin> set s"
    by (auto simp: js_split_three)
  then have sp: "js_split (CHR ''.'') t = [h, p, s]"
    by (simp add: js_split_three_parts)
  have ne: "t \<noteq> []" using t by simp
  have l: "isTokenValid parsePayload now (Some t) =
      (\<exists>payload e. parsePayload p = Some payload \<and> exp_claim payload = Some e
          \<and> of_int now / 1000 < e)"
    using sp ne by (auto simp: isTokenValid_def Let_def truthy_def split: option.splits)
  have r: "(\<exists>h' p' s' payload e. t = h' @ ''.'' @ p' @ ''.'' @ s'
        \<and> CHR ''.'' \<notin> set h' \<and> CHR ''.'' \<notin> set p' \<and> CHR ''.'' \<notin> set s'
        \<and> parsePayload p' = Some payload \<and> exp_claim payload = Some e
        \<and> of_int now / 1000 < e) =
      (\<exists>payload e. parsePayload p = Some payload \<and> exp_claim payload = Some e
          \<and> of_int now / 1000 < e)"
  proof
    assume "\<exists>h' p' s' payload e. t = h' @ ''.'' @ p' @ ''.'' @ s'
        \<and> CHR ''.'' \<notin> set h' \<and> CHR ''.'' \<notin> set p' \<and> CHR ''.'' \<notin> set s'
        \<and> parsePayload p' = Some payload \<and> exp_claim payload = Some e
        \<and> of_int now / 1000 < e"
    then obtain h' p' s' payload e where x: "t = h' @ CHR ''.'' # p' @ CHR ''.'' # s'"
      "CHR ''.'' \<notin> set h'" "CHR ''.'' \<notin> set p'" "CHR ''.'' \<notin> set s'"
      "parsePayload p' = Some payload" "exp_claim payload = Some e" "of_int now / 1000 < e"
      by auto
    from three_parts_unique [of h "CHR ''.''" p s h' p' s'] t x have "p = p'"
      by simp
    with x show "\<exists>payload e. parsePayload p = Some payload \<and> exp_claim payload = Some e
          \<and> of_int now / 1000 < e" by blast
  next
    assume "\<exists>payload e. parsePayload p = Some payload \<and> exp_claim payload = Some e
          \<and> of_int now / 1000 < e"
    with t show "\<exists>h' p' s' payload e. t = h' @ ''.'' @ p' @ ''.'' @ s'
        \<and> CHR ''.'' \<notin> set h' \<and> CHR ''.'' \<notin> set p' \<and> CHR ''.'' \<notin> set s'
        \<and> parsePayload p' = Some payload \<and> exp_claim payload = Some e
        \<and> of_int now / 1000 < e"
      by (intro exI [of _ h] exI [of _ p] exI [of _ s]) auto
  qed
  from l r show ?thesis by simp
qed

lemma setAuthToken_iff:
  "fst (setAuthToken (Some t) w) =
     (\<exists>h p s. t = h @ ''.'' @ p @ ''.'' @ s
        \<and> CHR ''.'' \<notin> set h \<and> CHR ''.'' \<notin> set p \<and> CHR ''.'' \<notin> set s)"
proof (cases "t = []")
  case True
  then show ?thesis by (simp add: setAuthToken_def)
next
  case False
  then have "fst (setAuthToken (Some t) w) = (length (js_split (CHR ''.'') t) = 3)"
    by (simp add: setAuthToken_def Let_def)
  then show ?thesis by (simp add: js_split_three)
qed

lemma loadUser_invalid_token:
  "\<not> isTokenValid parsePayload (clock w) (localStorage_token w) \<Longrightarrow>
     \<exists>w'. loadUser parsePayload auth rs w = Some (rs, w') \<and> requests w' = requests w
        \<and> authorization w' = (if truthy (localStorage_token w) then None else authorization w)
        \<and> isAuthenticated (state w') = isAuthenticated (state w)"
  by (simp add: loadUser_def loadUser_begin_def Let_def)


text \<open>
  Claim C3, amended. \<open>isTokenValid\<close> accepts a token exactly when it consists of three
  segments separated by two dots (each segment free of dots, any of them possibly
  empty as far as the structure goes) and the middle segment decodes to a payload
  whose \<open>exp\<close> claim lies after the current time in seconds; so a token with fewer
  or more segments, a past or missing expiry claim, or a payload that does not decode
  is rejected, and no token at all is rejected. \<open>setAuthToken\<close> accepts exactly the
  tokens of that three-segment structure. When the persisted token is rejected,
  \<open>loadUser\<close> ends without sending a request.
\<close>

theorem token_acceptance:
  "(isTokenValid parsePayload now (Some t) =
      (\<exists>h p s payload e. t = h @ ''.'' @ p @ ''.'' @ s
          \<and> CHR ''.'' \<notin> set h \<and> CHR ''.'' \<notin> set p \<and> CHR ''.'' \<notin> set s
          \<and> parsePayload p = Some payload \<and> exp_claim payload = Some e
          \<and> of_int now / 1000 < e))
   \<and> \<not> isTokenValid parsePayload now None
   \<and> (fst (setAuthToken (Some t) w) =
        (\<exists>h p s. t = h @ ''.'' @ p @ ''.'' @ s
            \<and> CHR ''.'' \<notin> set h \<and> CHR ''.'' \<notin> set p \<and> CHR ''.'' \<notin> set s))
   \<and> (\<not> isTokenValid parsePayload (clock w) (localStorage_token w) \<longrightarrow>
        (\<exists>w'. loadUser parsePayload auth rs w = Some (rs, w') \<and> requests w' = requests w))"
proof -
  have "\<not> isTokenValid parsePayload now None"
    by (simp add: isTokenValid_def truthy_def)
  moreover have "\<not> isTokenValid parsePayload (clock w) (localStorage_token w) \<longrightarrow>
        (\<exists>w'. loadUser parsePayload auth rs w = Some (rs, w') \<and> requests w' = requests w)"
    using loadUser_invalid_token [of parsePayload w auth rs] by blast
  ultimately show ?thesis
    using isTokenValid_iff [of parsePayload now t] setAuthToken_iff [of t w] by blast
qed

theorem token_acceptance_witness:
  "isTokenValid sample_parsePayload 1700000000000 (Some sample_token)
   \<and> (\<exists>h p s payload e. sample_token = h @ ''.'' @ p @ ''.'' @ s
          \<and> CHR ''.'' \<notin> set h \<and> CHR ''.'' \<notin> set p \<and> CHR ''.'' \<notin> set s
          \<and> sample_parsePayload p = Some payload \<and> exp_claim payload = Some e
          \<and> of_int 1700000000000 / 1000 < e)
   \<and> \<not> isTokenValid sample_parsePayload (clock (starting\<lparr> localStorage_token := Some ''a.b'' \<rparr>))
         (localStorage_token (starting\<lparr> localStorage_token := Some ''a.b'' \<rparr>))
   \<and> (\<exists>w'. loadUser sample_parsePayload False [] (starting\<lparr> localStorage_token := Some ''a.b'' \<rparr>)
              = Some ([], w')
          \<and> requests w' = requests (starting\<lparr> localStorage_token := Some ''a.b'' \<rparr>))"
proof -
  have v: "isTokenValid sample_parsePayload 1700000000000 (Some sample_token)"
    by (simp add: isTokenValid_def truthy_def sample_token_def sample_parsePayload_def)
  have n: "\<not> isTokenValid sample_parsePayload (clock (starting\<lparr> localStorage_token := Some ''a.b'' \<rparr>))
         (localStorage_token (starting\<lparr> localStorage_token := Some ''a.b'' \<rparr>))"
    by (simp add: isTokenValid_def truthy_def)
  from v n token_acceptance [of sample_parsePayload 1700000000000 sample_token signed_out]
    token_acceptance [of sample_parsePayload _ _ "starting\<lparr> localStorage_token := Some ''a.b'' \<rparr>"
      False "[]"]
  show ?thesis by blast
qed

text \<open>
  Claim C3 as stated asks for three non-empty segments. A token with an empty header
  and an empty signature around a payload that has not expired is accepted, and
  \<open>setAuthToken\<close> accepts the token made of two dots alone.
\<close>

theorem empty_segments_accepted:
  "isTokenValid sample_parsePayload 1700000000000 (Some ''.eyJleHAiOjk5OTk5OTk5OTl9.'')
   \<and> js_split (CHR ''.'') ''.eyJleHAiOjk5OTk5OTk5OTl9.'' = [[], ''eyJleHAiOjk5OTk5OTk5OTl9'', []]
   \<and> fst (setAuthToken (Some ''..'') signed_out)"
  by (simp add: isTokenValid_def truthy_def sample_parsePayload_def setAuthToken_def)

subsection \<open>What a login checks before its request\<close>

lemma regex_a_b_com: "regex_test emailRegex ''a@b.com''"
  by (simp add: emailRegex_def Plus_def not_space_at_def is_space_def)

lemma login_begin_requests:
  "login_begin email password w = Inl (res, w') \<Longrightarrow> requests w' = requests w"
  by (auto simp: login_begin_def login_catch_def Let_def split: if_splits)

text \<open>
  Claim C5, amended. Before any request, \<open>login\<close> checks that both fields are
  non-empty and that the e-mail matches the pattern; a call failing one of the two is
  rejected with the message of that check and sends nothing. It checks no minimum
  length: with both fields non-empty and a matching e-mail, the request is sent
  whatever the password is. The minimum of 8 characters is checked by \<open>register\<close>,
  which rejects a shorter password without a request.
\<close>

theorem login_local_validation:
  "(email = [] \<or> password = [] \<longrightarrow>
      (\<exists>w'. login auth email password rs w
               = Some (Failure ''Email and password are required'', rs, w')
          \<and> requests w' = requests w
          \<and> error (state w') = Some ''Email and password are required''))
   \<and> (email \<noteq> [] \<and> password \<noteq> [] \<and> \<not> regex_test emailRegex email \<longrightarrow>
      (\<exists>w'. login auth email password rs w
               = Some (Failure ''Please enter a valid email address'', rs, w')
          \<and> requests w' = requests w
          \<and> error (state w') = Some ''Please enter a valid email address''))
   \<and> (email \<noteq> [] \<and> password \<noteq> [] \<and> regex_test emailRegex email \<longrightarrow>
      (\<exists>w1. login_begin email password w = Inr w1
          \<and> requests w1
              = requests w @ [Post ''/api/auth/login'' [trim (toLowerCase email), password]]))
   \<and> (f_email formData \<noteq> [] \<and> f_firstName formData \<noteq> [] \<and> f_lastName formData \<noteq> []
        \<and> f_role formData \<noteq> [] \<and> regex_test emailRegex (f_email formData)
        \<and> f_password formData \<noteq> [] \<and> length (f_password formData) < 8 \<longrightarrow>
      (\<exists>w'. register auth formData rs w
               = Some (Failure ''Password must be at least 8 characters long'', rs, w')
          \<and> requests w' = requests w))"
  by (simp add: login_def login_begin_def login_catch_def register_def register_begin_def
      register_catch_def or_default_def or_else_def truthy_def Let_def)

theorem login_local_validation_witness:
  "(\<exists>w'. login False ''a@b.com'' [] [] signed_out
            = Some (Failure ''Email and password are required'', [], w')
       \<and> requests w' = requests signed_out)
   \<and> \<not> regex_test emailRegex ''a.b.com''
   \<and> (\<exists>w'. login False ''a.b.com'' ''secret-password'' [] signed_out
            = Some (Failure ''Please enter a valid email address'', [], w')
       \<and> requests w' = requests signed_out)
   \<and> regex_test emailRegex ''a@b.com''
   \<and> (\<exists>w1. login_begin ''a@b.com'' ''short'' signed_out = Inr w1
       \<and> requests w1 = requests signed_out @ [Post ''/api/auth/login'' [''a@b.com'', ''short'']])
   \<and> (\<exists>w'. register False \<lparr> f_email = ''a@b.com'', f_password = ''short'', f_firstName = ''Ann'',
                              f_lastName = ''Lee'', f_role = ''doctor'' \<rparr> [] signed_out
            = Some (Failure ''Password must be at least 8 characters long'', [], w')
       \<and> requests w' = requests signed_out)"
proof -
  have r: "regex_test emailRegex ''a@b.com''"
    by (rule regex_a_b_com)
  have n: "\<not> regex_test emailRegex ''a.b.com''"
    by (simp add: emailRegex_def Plus_def not_space_at_def is_space_def)
  have t: "trim (toLowerCase ''a@b.com'') = ''a@b.com''"
    by (simp add: trim_def toLowerCase_def is_space_def)
  have c1: "\<exists>w'. login False ''a@b.com'' [] [] signed_out
            = Some (Failure ''Email and password are required'', [], w')
       \<and> requests w' = requests signed_out"
    using login_local_validation [of "''a@b.com''" "[]" False "[]" signed_out]
    by blast
  have c2: "\<exists>w'. login False ''a.b.com'' ''secret-password'' [] signed_out
            = Some (Failure ''Please enter a valid email address'', [], w')
       \<and> requests w' = requests signed_out"
    using n login_local_validation [of "''a.b.com''" "''secret-password''" False "[]" signed_out]
    by (simp del: regex_test.simps) blast
  have c3: "\<exists>w1. login_begin ''a@b.com'' ''short'' signed_out = Inr w1
       \<and> requests w1 = requests signed_out @ [Post ''/api/auth/login'' [''a@b.com'', ''short'']]"
    using r t login_local_validation [of "''a@b.com''" "''short''" False "[]" signed_out]
    by (simp del: regex_test.simps)
  have c4: "\<exists>w'. register False \<lparr> f_email = ''a@b.com'', f_password = ''short'', f_firstName = ''Ann'',
                              f_lastName = ''Lee'', f_role = ''doctor'' \<rparr> [] signed_out
            = Some (Failure ''Password must be at least 8 characters long'', [], w')
       \<and> requests w' = requests signed_out"
    using r login_local_validation [of _ _ False "[]" signed_out
      "\<lparr> f_email = ''a@b.com'', f_password = ''short'', f_firstName = ''Ann'',
         f_lastName = ''Lee'', f_role = ''doctor'' \<rparr>"]
    by (simp del: regex_test.simps)
  from c1 n c2 r c3 c4 show ?thesis
    by blast
qed

text \<open>
  Claim C5 as stated fails: the login with \<^verbatim>\<open>a@b.com\<close> and the password
  \<^verbatim>\<open>short\<close> sends its request, and succeeds when the server accepts it.
\<close>

theorem login_short_password_sent:
  "(\<exists>w1. login_begin ''a@b.com'' ''short'' signed_out = Inr w1
       \<and> requests w1 = [Post ''/api/auth/login'' [''a@b.com'', ''short'']])
   \<and> (\<exists>w'. login False ''a@b.com'' ''short'' [reply_login] signed_out
              = Some (Success sample_user, [], w')
          \<and> isAuthenticated (state w'))"
  by (simp add: login_defs sample_defs reply_login_def signed_out_def run_defs)

subsection \<open>Loading the user fails\<close>

lemma isTokenValid_structure:
  "isTokenValid parsePayload now (Some t) \<Longrightarrow> t \<noteq> [] \<and> length (js_split (CHR ''.'') t) = 3"
  by (auto simp: isTokenValid_def truthy_def Let_def split: if_splits)

lemma loadUser_begin_valid:
  assumes "localStorage_token w = Some t" and "isTokenValid parsePayload (clock w) (Some t)"
  shows "loadUser_begin parsePayload w =
           Inr (axios_send (Get ''/api/auth/me'')
                  (dispatch USER_LOADING
                     (w\<lparr> authorization := Some (''Bearer '' @ t), localStorage_token := Some t \<rparr>)))"
  using assms isTokenValid_structure [OF assms(2)]
  by (simp add: loadUser_begin_def setAuthToken_def truthy_def Let_def)

text \<open>
  Claim C4, amended. When the persisted token is valid and the request of \<open>loadUser\<close>
  is answered with a status of 500 or more, or gets no response (a timeout among
  others), the session records the error and is not authenticated, its own token
  field and user are null, and the persisted token and the attached credential stay
  as they are. A login with \<^verbatim>\<open>a@b.com\<close> and the password \<^verbatim>\<open>short\<close> passes the local
  checks and sends its request.
\<close>

theorem loadUser_failure_keeps_persisted_token:
  assumes "localStorage_token w = Some t"
    and "isTokenValid parsePayload (clock w) (Some t)"
    and "(\<exists>status d. outcome r = Response status d \<and> 500 \<le> status)
         \<or> (\<exists>code msg. outcome r = NoResponse code msg)"
  shows "(\<exists>w'. loadUser parsePayload auth (r # rs) w = Some (rs, w')
            \<and> localStorage_token w' = Some t
            \<and> authorization w' = Some (''Bearer '' @ t)
            \<and> error (state w') \<noteq> None
            \<and> \<not> isAuthenticated (state w') \<and> user (state w') = None
            \<and> token (state w') = None
            \<and> requests w' = requests w @ [Get ''/api/auth/me''])
       \<and> (\<exists>w1. login_begin ''a@b.com'' ''short'' w = Inr w1
            \<and> requests w1 = requests w @ [Post ''/api/auth/login'' [''a@b.com'', ''short'']])"
proof -
  note b = loadUser_begin_valid [OF assms(1,2)]
  have l: "\<exists>w1. login_begin ''a@b.com'' ''short'' w = Inr w1
            \<and> requests w1 = requests w @ [Post ''/api/auth/login'' [''a@b.com'', ''short'']]"
    by (simp add: login_begin_def Let_def emailRegex_def Plus_def not_space_at_def is_space_def
        trim_def toLowerCase_def)
  from assms(3) have "\<exists>w'. loadUser parsePayload auth (r # rs) w = Some (rs, w')
            \<and> localStorage_token w' = Some t
            \<and> authorization w' = Some (''Bearer '' @ t)
            \<and> error (state w') \<noteq> None
            \<and> \<not> isAuthenticated (state w') \<and> user (state w') = None
            \<and> token (state w') = None
            \<and> requests w' = requests w @ [Get ''/api/auth/me'']"
  proof
    assume "\<exists>status d. outcome r = Response status d \<and> 500 \<le> status"
    then obtain status d where o: "outcome r = Response status d" "500 \<le> status"
      by blast
    then show ?thesis
      by (simp add: loadUser_def b loadUser_resume_def flow_simps settle_def loadUser_catch_def
          Let_def)
  next
    assume "\<exists>code msg. outcome r = NoResponse code msg"
    then obtain code msg where o: "outcome r = NoResponse code msg"
      by blast
    then show ?thesis
      by (simp add: loadUser_def b loadUser_resume_def flow_simps settle_def loadUser_catch_def
          Let_def)
  qed
  with l show ?thesis by blast
qed

theorem loadUser_failure_keeps_persisted_token_witness:
  "localStorage_token starting = Some sample_token
   \<and> isTokenValid sample_parsePayload (clock starting) (Some sample_token)
   \<and> outcome reply_500 = Response 500 no_data \<and> (500 :: nat) \<le> 500
   \<and> (\<exists>w'. loadUser sample_parsePayload False [reply_500] starting = Some ([], w')
          \<and> localStorage_token w' = Some sample_token
          \<and> authorization w' = Some (''Bearer '' @ sample_token)
          \<and> error (state w') \<noteq> None \<and> \<not> isAuthenticated (state w'))
   \<and> (\<exists>w'. loadUser sample_parsePayload False [reply_timeout] starting = Some ([], w')
          \<and> localStorage_token w' = Some sample_token
          \<and> authorization w' = Some (''Bearer '' @ sample_token)
          \<and> error (state w') \<noteq> None \<and> \<not> isAuthenticated (state w'))"
proof -
  have s: "localStorage_token starting = Some sample_token"
    by (simp add: starting_def)
  have v: "isTokenValid sample_parsePayload (clock starting) (Some sample_token)"
    by (simp add: isTokenValid_def truthy_def sample_token_def sample_parsePayload_def
        starting_def)
  have o: "outcome reply_500 = Response 500 no_data"
    by (simp add: reply_500_def)
  have t: "outcome reply_timeout = NoResponse (Some ''ECONNABORTED'') ''timeout of 10000ms exceeded''"
    by (simp add: reply_timeout_def)
  have a: "(\<exists>status d. outcome reply_500 = Response status d \<and> 500 \<le> status)
         \<or> (\<exists>code msg. outcome reply_500 = NoResponse code msg)"
    using o by simp
  have b: "(\<exists>status d. outcome reply_timeout = Response status d \<and> 500 \<le> status)
         \<or> (\<exists>code msg. outcome reply_timeout = NoResponse code msg)"
    using t by simp
  from loadUser_failure_keeps_persisted_token [OF s v a, of False "[]"]
    loadUser_failure_keeps_persisted_token [OF s v b, of False "[]"] s v o
  show ?thesis by blast
qed

text \<open>
  Claim C4 as stated fails twice: after a reply of 500 the token field of the session
  is null, and the login with the password \<^verbatim>\<open>short\<close> is not rejected locally.
\<close>

theorem loadUser_500_and_short_login:
  "(\<exists>w'. loadUser sample_parsePayload False [reply_500] starting = Some ([], w')
        \<and> token (state starting) = Some sample_token
        \<and> token (state w') = None)
   \<and> (\<exists>w1. login_begin ''a@b.com'' ''short'' signed_out = Inr w1
        \<and> requests signed_out = []
        \<and> requests w1 = [Post ''/api/auth/login'' [''a@b.com'', ''short'']])"
  by (simp add: loadUser_def loadUser_begin_def loadUser_resume_def loadUser_catch_def
      isTokenValid_def sample_token_def sample_parsePayload_def starting_def initialState_def
      login_defs sample_defs signed_out_def run_defs)

text \<open>The branch of the handler that removes the token on a 401 is never reached.\<close>

lemma loadUser_401_token_not_removed:
  assumes "localStorage_token w = Some t"
    and "isTokenValid parsePayload (clock w) (Some t)"
    and "outcome r = Response 401 d"
  shows "\<exists>w'. loadUser parsePayload auth (r # rs) w = Some (rs, w')
           \<and> localStorage_token w' = Some t
           \<and> authorization w' = Some (''Bearer '' @ t)
           \<and> error (state w') = Some ''Authentication verification failed''"
  using assms(3)
  by (simp add: loadUser_def loadUser_begin_valid [OF assms(1,2)] loadUser_resume_def flow_simps
      settle_def loadUser_catch_def or_default_def Let_def)

subsection \<open>The session timers\<close>

lemma clear_ref_timeouts:
  "timeouts (clear_ref r w) =
     (case r of None \<Rightarrow> timeouts w | Some h \<Rightarrow> filter (\<lambda>t. timer_id t \<noteq> h) (timeouts w))"
  by (simp add: clear_ref_def clearTimeout_def split: option.splits)

lemma cleanup_fields [simp]:
  "state (sessionEffect_cleanup w) = state w"
  "clock (sessionEffect_cleanup w) = clock w"
  "sessionTimeoutRef (sessionEffect_cleanup w) = sessionTimeoutRef w"
  "activityTimeoutRef (sessionEffect_cleanup w) = activityTimeoutRef w"
  "next_handle (sessionEffect_cleanup w) = next_handle w"
  by (simp_all add: sessionEffect_cleanup_def Let_def)

lemma cleanup_filter:
  "timeouts (sessionEffect_cleanup w) =
     filter (\<lambda>t. sessionTimeoutRef w \<noteq> Some (timer_id t) \<and> activityTimeoutRef w \<noteq> Some (timer_id t))
       (timeouts w)"
  by (cases "sessionTimeoutRef w"; cases "activityTimeoutRef w")
    (auto simp: sessionEffect_cleanup_def Let_def clear_ref_timeouts intro: filter_cong)

lemma cleanup_timeouts:
  assumes "timers_ok w"
  shows "timeouts (sessionEffect_cleanup w) = []"
proof -
  have "sessionTimeoutRef w = Some (timer_id t) \<or> activityTimeoutRef w = Some (timer_id t)"
    if "t \<in> set (timeouts w)" for t
    using assms that by (cases "callback t") (auto simp: timers_ok_def)
  then show ?thesis
    by (auto simp: cleanup_filter filter_empty_conv)
qed

lemma logoutSilent_timeouts:
  assumes "timers_ok w"
  shows "timeouts (logoutSilent w) = []"
proof -
  have "timeouts (logoutSilent w) = timeouts (sessionEffect_cleanup w)"
    by (simp add: logoutSilent_def sessionEffect_cleanup_def Let_def clear_ref_timeouts
        dispatch_def split: option.splits)
  with cleanup_timeouts [OF assms] show ?thesis by simp
qed

lemma logout_clears_timeouts:
  "timers_ok w \<Longrightarrow> timeouts (logout w) = []"
  by (simp add: logout_timeouts logoutSilent_timeouts)

lemma timers_ok_empty: "timeouts w = [] \<Longrightarrow> timers_ok w"
  by (simp add: timers_ok_def)

lemma effect_on_empty:
  assumes "timeouts w = []" and "isAuthenticated (state w)" and "truthy (token (state w))"
  shows "schedule (sessionEffect w) =
           [(SessionWarning, clock w + (SESSION_TIMEOUT - WARNING_TIME)),
            (AutoLogout, clock w + SESSION_TIMEOUT)]"
    and "timers_ok (sessionEffect w)"
    and "state (sessionEffect w) = state w"
  using assms
  by (simp_all add: sessionEffect_def Let_def clear_ref_timeouts clear_ref_def clearTimeout_def
      setTimeout_def schedule_def timers_ok_def split: option.splits)

lemma effect_idle:
  "\<not> (isAuthenticated (state w) \<and> truthy (token (state w))) \<Longrightarrow> sessionEffect w = w"
  by (auto simp: sessionEffect_def)

lemma effect_state [simp]: "state (sessionEffect w) = state w"
  by (simp add: sessionEffect_def Let_def setTimeout_def split: prod.splits)

lemma commit_state [simp]: "state (commit b w) = state w"
  by (simp add: commit_def)

lemma rearm_ok:
  assumes "timers_ok w"
  shows "timers_ok (sessionEffect (sessionEffect_cleanup w))"
proof (cases "isAuthenticated (state w) \<and> truthy (token (state w))")
  case True
  with effect_on_empty(2) [of "sessionEffect_cleanup w"] cleanup_timeouts [OF assms]
  show ?thesis by simp
next
  case False
  with effect_idle [of "sessionEffect_cleanup w"] cleanup_timeouts [OF assms]
  show ?thesis by (simp add: timers_ok_empty)
qed

lemma commit_ok: "timers_ok w \<Longrightarrow> timers_ok (commit b w)"
  by (simp add: commit_def rearm_ok)

lemma timers_ok_filter:
  assumes "timers_ok w" and "timeouts w' = filter P (timeouts w)"
    and "sessionTimeoutRef w' = sessionTimeoutRef w"
    and "activityTimeoutRef w' = activityTimeoutRef w"
  shows "timers_ok w'"
  using assms by (auto simp: timers_ok_def distinct_map_filter split: callback.splits)

lemma dispatch_ok: "timers_ok w \<Longrightarrow> timers_ok (dispatch a w)"
  by (simp add: timers_ok_def split: callback.splits)

lemma toast_ok: "timers_ok w \<Longrightarrow> timers_ok (toast k m w)"
  by (simp add: timers_ok_def split: callback.splits)

lemma clearTimeout_ok: "timers_ok w \<Longrightarrow> timers_ok (clearTimeout h w)"
  by (rule timers_ok_filter [where P = "\<lambda>t. timer_id t \<noteq> h"]) (simp_all add: clearTimeout_def)

lemma logoutSilent_ok: "timers_ok w \<Longrightarrow> timers_ok (logoutSilent w)"
  by (simp add: timers_ok_empty logoutSilent_timeouts)

lemma logout_ok: "timers_ok w \<Longrightarrow> timers_ok (logout w)"
  by (simp add: timers_ok_empty logout_clears_timeouts)

lemma setAuthToken_ok: "timers_ok w \<Longrightarrow> timers_ok (snd (setAuthToken tok w))"
  by (simp add: timers_ok_def split: callback.splits)

lemma run_callback_ok: "timers_ok w \<Longrightarrow> timers_ok (run_callback k w)"
  by (cases k) (simp_all add: toast_ok dispatch_ok logoutSilent_ok)

lemma step_ok: "timers_ok w \<Longrightarrow> timers_ok (step e w)"
proof (cases e)
  case (Fire h)
  assume "timers_ok w"
  then show ?thesis
    by (simp add: Fire commit_ok run_callback_ok clearTimeout_ok split: list.splits)
next
  case (Tick d)
  assume "timers_ok w"
  then show ?thesis by (simp add: Tick timers_ok_def split: callback.splits)
qed (simp_all add: commit_ok dispatch_ok logout_ok logoutSilent_ok setAuthToken_ok)

lemma run_ok: "timers_ok w \<Longrightarrow> timers_ok (run es w)"
  by (induction es arbitrary: w) (simp_all add: run_def step_ok)

lemma mount_ok: "timers_ok (mount stored now)"
  by (simp add: mount_def sessionEffect_def initialState_def timers_ok_def)

lemma timers_ok_ref:
  assumes "timers_ok w" and "t \<in> set (timeouts w)"
  shows "callback t = SessionWarning \<Longrightarrow> sessionTimeoutRef w = Some (timer_id t)"
    and "callback t = AutoLogout \<Longrightarrow> activityTimeoutRef w = Some (timer_id t)"
  using assms by (auto simp: timers_ok_def split: callback.splits)

lemma at_most_one:
  assumes "timers_ok w"
  shows "length (active k w) \<le> 1"
proof (cases "active k w")
  case Nil
  then show ?thesis by simp
next
  case (Cons x xs)
  show ?thesis
  proof (cases xs)
    case Nil
    with Cons show ?thesis by simp
  next
    case (Cons y ys)
    with \<open>active k w = x # xs\<close> have a: "active k w = x # y # ys" by simp
    have d: "distinct (map timer_id (active k w))"
      using assms by (simp add: timers_ok_def active_def distinct_map_filter)
    with a have ne: "timer_id x \<noteq> timer_id y" by simp
    from a have "x \<in> set (active k w)" "y \<in> set (active k w)" by simp_all
    then have m: "x \<in> set (timeouts w)" "callback x = k" "y \<in> set (timeouts w)" "callback y = k"
      by (simp_all add: active_def)
    have "timer_id x = timer_id y"
    proof (cases k)
      case SessionWarning
      with timers_ok_ref(1) [OF assms m(1)] timers_ok_ref(1) [OF assms m(3)] m(2,4)
      show ?thesis by simp
    next
      case AutoLogout
      with timers_ok_ref(2) [OF assms m(1)] timers_ok_ref(2) [OF assms m(3)] m(2,4)
      show ?thesis by simp
    qed
    with ne show ?thesis by simp
  qed
qed


lemma rearm_schedule:
  assumes "timers_ok w" and "isAuthenticated (state w)" and "truthy (token (state w))"
  shows "schedule (sessionEffect (sessionEffect_cleanup w)) =
           [(SessionWarning, clock w + (SESSION_TIMEOUT - WARNING_TIME)),
            (AutoLogout, clock w + SESSION_TIMEOUT)]"
  using effect_on_empty(1) [of "sessionEffect_cleanup w"] cleanup_timeouts [OF assms(1)] assms(2,3)
  by simp

lemma commit_logged_out:
  assumes "timers_ok w'" and "\<not> isAuthenticated (state w')" and "timeouts w' = []"
  shows "timeouts (commit w w') = []"
  using assms cleanup_timeouts [OF assms(1)]
  by (simp add: commit_def effect_idle)

lemma filter_same_key:
  "distinct (map f xs) \<Longrightarrow> x \<in> set xs \<Longrightarrow> filter (\<lambda>u. f u = f x) xs = [x]"
proof (induction xs)
  case Nil
  then show ?case by simp
next
  case (Cons a xs)
  show ?case
  proof (cases "a = x")
    case True
    from Cons.prems(1) have "f a \<notin> f ` set xs" by simp
    with True have "\<forall>u \<in> set xs. f u \<noteq> f x" by (metis imageI)
    then have "filter (\<lambda>u. f u = f x) xs = []" by (simp add: filter_empty_conv)
    with True show ?thesis by simp
  next
    case False
    with Cons.prems have x: "x \<in> set xs" by simp
    with Cons.prems have "f a \<noteq> f x" by auto
    with Cons.IH x Cons.prems show ?thesis by simp
  qed
qed

lemma warning_fired:
  assumes "timers_ok w" and "t \<in> set (active SessionWarning w)" and "due t \<le> clock w"
  shows "active SessionWarning (step (Fire (timer_id t)) w) = []"
    and "active AutoLogout (step (Fire (timer_id t)) w) = active AutoLogout w"
    and "isAuthenticated (state (step (Fire (timer_id t)) w)) = isAuthenticated (state w)"
proof -
  from assms(2) have t: "t \<in> set (timeouts w)" "callback t = SessionWarning"
    by (simp_all add: active_def)
  from assms(1) have d: "distinct (map timer_id (timeouts w))"
    by (simp add: timers_ok_def)
  have f: "filter (\<lambda>u. timer_id u = timer_id t) (timeouts w) = [t]"
    using filter_same_key [OF d t(1)] .
  let ?v = "toast ToastError ''Your session will expire in 5 minutes. Please save your work.''
              (dispatch SESSION_WARNING (clearTimeout (timer_id t) w))"
  have s: "step (Fire (timer_id t)) w = ?v"
    using f t(2) assms(3) by (simp add: commit_def clearTimeout_def)
  have tv: "active k ?v = filter (\<lambda>u. callback u = k)
                 (filter (\<lambda>u. timer_id u \<noteq> timer_id t) (timeouts w))" for k
    by (simp add: active_def clearTimeout_def)
  have "timer_id u = timer_id t" if "u \<in> set (timeouts w)" "callback u = SessionWarning" for u
    using timers_ok_ref(1) [OF assms(1) that] timers_ok_ref(1) [OF assms(1) t] by simp
  then show "active SessionWarning (step (Fire (timer_id t)) w) = []"
    unfolding s tv by (auto simp: filter_empty_conv)
  have "timer_id u \<noteq> timer_id t" if "u \<in> set (timeouts w)" "callback u = AutoLogout" for u
  proof
    assume "timer_id u = timer_id t"
    with d that(1) t(1) have "u = t"
      by (auto simp: distinct_map dest: inj_onD)
    with that(2) t(2) show False by simp
  qed
  then have "filter (\<lambda>u. timer_id u \<noteq> timer_id t \<and> callback u = AutoLogout) (timeouts w)
      = filter (\<lambda>u. callback u = AutoLogout) (timeouts w)"
    by (intro filter_cong [OF refl]) auto
  then show "active AutoLogout (step (Fire (timer_id t)) w) = active AutoLogout w"
    unfolding s tv by (simp add: active_def)
  show "isAuthenticated (state (step (Fire (timer_id t)) w)) = isAuthenticated (state w)"
    unfolding s by (simp add: clearTimeout_def)
qed

text \<open>
  Claim C7, amended. In every state the provider reaches from its mount, at most one
  warning timer and at most one expiry timer are pending. A run of the effect on a
  session that is authenticated and holds a token cancels what was pending and arms
  exactly one warning timer, due \<open>SESSION_TIMEOUT - WARNING_TIME\<close> from then, and one
  expiry timer, due \<open>SESSION_TIMEOUT\<close> from then. \<open>updateActivity\<close> with a new
  timestamp on such a session is such a run: afterwards the two timers are due a
  full window after the new \<open>lastActivity\<close>. When a pending warning timer that is
  due fires, no warning timer is pending afterwards, the expiry timer stays as it
  was and the session stays authenticated. Both logouts and the cleanup of the
  effect leave no timer pending.
\<close>

theorem session_timers:
  assumes "w = run es (mount stored t0)"
  shows "length (active SessionWarning w) \<le> 1 \<and> length (active AutoLogout w) \<le> 1
       \<and> (isAuthenticated (state w) \<and> truthy (token (state w)) \<longrightarrow>
            schedule (sessionEffect (sessionEffect_cleanup w)) =
              [(SessionWarning, clock w + (SESSION_TIMEOUT - WARNING_TIME)),
               (AutoLogout, clock w + SESSION_TIMEOUT)])
       \<and> (isAuthenticated (state w) \<and> truthy (token (state w))
            \<and> lastActivity (state w) \<noteq> clock w \<longrightarrow>
            lastActivity (state (step (Act UPDATE_ACTIVITY) w)) = clock w
            \<and> schedule (step (Act UPDATE_ACTIVITY) w) =
                [(SessionWarning, clock w + (SESSION_TIMEOUT - WARNING_TIME)),
                 (AutoLogout, clock w + SESSION_TIMEOUT)])
       \<and> timeouts (logout w) = [] \<and> timeouts (logoutSilent w) = []
       \<and> timeouts (step Logout w) = [] \<and> timeouts (step LogoutSilent w) = []
       \<and> timeouts (sessionEffect_cleanup w) = []
       \<and> (\<forall>t \<in> set (active SessionWarning w). due t \<le> clock w \<longrightarrow>
            active SessionWarning (step (Fire (timer_id t)) w) = []
            \<and> active AutoLogout (step (Fire (timer_id t)) w) = active AutoLogout w
            \<and> isAuthenticated (state (step (Fire (timer_id t)) w))
                = isAuthenticated (state w))"
proof -
  have ok: "timers_ok w"
    unfolding assms by (rule run_ok) (rule mount_ok)
  have a: "length (active SessionWarning w) \<le> 1 \<and> length (active AutoLogout w) \<le> 1"
    using at_most_one [OF ok] by blast
  have b: "isAuthenticated (state w) \<and> truthy (token (state w)) \<longrightarrow>
            schedule (sessionEffect (sessionEffect_cleanup w)) =
              [(SessionWarning, clock w + (SESSION_TIMEOUT - WARNING_TIME)),
               (AutoLogout, clock w + SESSION_TIMEOUT)]"
    using rearm_schedule [OF ok] by blast
  have c: "lastActivity (state (step (Act UPDATE_ACTIVITY) w)) = clock w
            \<and> schedule (step (Act UPDATE_ACTIVITY) w) =
                [(SessionWarning, clock w + (SESSION_TIMEOUT - WARNING_TIME)),
                 (AutoLogout, clock w + SESSION_TIMEOUT)]"
    if l: "isAuthenticated (state w)" "truthy (token (state w))" "lastActivity (state w) \<noteq> clock w"
  proof -
    let ?v = "dispatch UPDATE_ACTIVITY w"
    have v: "timers_ok ?v" "isAuthenticated (state ?v)" "truthy (token (state ?v))"
      "clock ?v = clock w" "lastActivity (state ?v) = clock w"
      using ok l by (simp_all add: dispatch_ok)
    have "step (Act UPDATE_ACTIVITY) w = sessionEffect (sessionEffect_cleanup ?v)"
      using l(3) by (simp add: commit_def)
    with rearm_schedule [OF v(1,2,3)] v(4,5) show ?thesis
      by simp
  qed
  have d: "timeouts (logout w) = []" "timeouts (logoutSilent w) = []"
    "timeouts (sessionEffect_cleanup w) = []"
    using ok by (simp_all add: logout_clears_timeouts logoutSilent_timeouts cleanup_timeouts)
  have e: "timeouts (step Logout w) = []" "timeouts (step LogoutSilent w) = []"
    using commit_logged_out [OF logout_ok [OF ok] _ d(1), of w]
      commit_logged_out [OF logoutSilent_ok [OF ok] _ d(2), of w]
    by simp_all
  have g: "\<forall>t \<in> set (active SessionWarning w). due t \<le> clock w \<longrightarrow>
            active SessionWarning (step (Fire (timer_id t)) w) = []
            \<and> active AutoLogout (step (Fire (timer_id t)) w) = active AutoLogout w
            \<and> isAuthenticated (state (step (Fire (timer_id t)) w))
                = isAuthenticated (state w)"
    using warning_fired [OF ok] by blast
  from a b c d e g show ?thesis by blast
qed

lemmas timer_defs = run_def mount_def commit_def sessionEffect_def sessionEffect_cleanup_def
  setTimeout_def clear_ref_def clearTimeout_def dispatch_def toast_def logoutSilent_def
  logout_def initialState_def truthy_def active_def schedule_def SESSION_TIMEOUT_def
  WARNING_TIME_def Let_def expiry_of_def setAuthToken_def login_data_def sample_user_def
  sample_token_def

text \<open>
  The session of the example has been idle since time 0: its warning timer has fired
  and the expiry timer is due at \<open>SESSION_TIMEOUT\<close>. An activity one second before
  that moves both firings a full window behind the activity.
\<close>

theorem session_timers_witness:
  "isAuthenticated (state (run [Tick 299000] warned_session))
   \<and> truthy (token (state (run [Tick 299000] warned_session)))
   \<and> lastActivity (state (run [Tick 299000] warned_session)) = 0
   \<and> clock (run [Tick 299000] warned_session) = SESSION_TIMEOUT - 1000
   \<and> schedule (run [Tick 299000] warned_session) = [(AutoLogout, SESSION_TIMEOUT)]
   \<and> schedule (step (Act UPDATE_ACTIVITY) (run [Tick 299000] warned_session)) =
        [(SessionWarning, (SESSION_TIMEOUT - 1000) + (SESSION_TIMEOUT - WARNING_TIME)),
         (AutoLogout, (SESSION_TIMEOUT - 1000) + SESSION_TIMEOUT)]
   \<and> timeouts (step Logout (run [Tick 299000] warned_session)) = []
   \<and> \<lparr> timer_id = 1, callback = SessionWarning, due = 1500000 \<rparr>
        \<in> set (active SessionWarning
                 (run [SetAuthToken (Some ''n.e.w''), Act (LOGIN_SUCCESS login_data),
                       Tick 1500000] (mount None 0)))
   \<and> clock (run [SetAuthToken (Some ''n.e.w''), Act (LOGIN_SUCCESS login_data),
                  Tick 1500000] (mount None 0)) = 1500000
   \<and> active SessionWarning
        (step (Fire 1)
           (run [SetAuthToken (Some ''n.e.w''), Act (LOGIN_SUCCESS login_data),
                 Tick 1500000] (mount None 0))) = []
   \<and> isAuthenticated
        (state (step (Fire 1)
                  (run [SetAuthToken (Some ''n.e.w''), Act (LOGIN_SUCCESS login_data),
                        Tick 1500000] (mount None 0))))"
proof -
  let ?w = "run [Tick 299000] warned_session"
  let ?v = "run [SetAuthToken (Some ''n.e.w''), Act (LOGIN_SUCCESS login_data),
                 Tick 1500000] (mount None 0)"
  let ?t = "\<lparr> timer_id = 1, callback = SessionWarning, due = 1500000 \<rparr>"
  have m: "?t \<in> set (active SessionWarning ?v)" "clock ?v = 1500000"
    "isAuthenticated (state ?v)"
    by (simp_all add: timer_defs)
  from session_timers [OF refl, of "[SetAuthToken (Some ''n.e.w''),
      Act (LOGIN_SUCCESS login_data), Tick 1500000]" None 0] m(1)
  have "due ?t \<le> clock ?v \<longrightarrow>
          active SessionWarning (step (Fire (timer_id ?t)) ?v) = []
          \<and> isAuthenticated (state (step (Fire (timer_id ?t)) ?v)) = isAuthenticated (state ?v)"
    by blast
  with m have f: "active SessionWarning (step (Fire 1) ?v) = []"
    "isAuthenticated (state (step (Fire 1) ?v))"
    by simp_all
  have r: "?w = run [SetAuthToken (Some ''n.e.w''), Act (LOGIN_SUCCESS login_data),
                     Tick 1500000, Fire 1, Tick 299000] (mount None 0)"
    by (simp add: warned_session_def run_def)
  have h: "isAuthenticated (state ?w)" "truthy (token (state ?w))"
    "lastActivity (state ?w) = 0" "clock ?w = SESSION_TIMEOUT - 1000"
    "schedule ?w = [(AutoLogout, SESSION_TIMEOUT)]"
    by (simp_all add: warned_session_def timer_defs)
  from h(3,4) have n: "lastActivity (state ?w) \<noteq> clock ?w"
    by (simp add: SESSION_TIMEOUT_def)
  from session_timers [OF r] h n have
    "schedule (step (Act UPDATE_ACTIVITY) ?w) =
        [(SessionWarning, (SESSION_TIMEOUT - 1000) + (SESSION_TIMEOUT - WARNING_TIME)),
         (AutoLogout, (SESSION_TIMEOUT - 1000) + SESSION_TIMEOUT)]"
    "timeouts (step Logout ?w) = []"
    by simp_all
  with h m f show ?thesis
    by simp
qed

text \<open>
  Claim C7 as stated fails. Once the warning timer has fired, the session is still
  authenticated and holds its token, and no warning timer is pending. And a session
  that became authenticated through \<open>USER_LOADED\<close> while the state holds no token
  has no timer at all, because the effect arms them only when the state has a token.
\<close>

theorem warned_or_tokenless_session:
  "isAuthenticated (state warned_session) \<and> truthy (token (state warned_session))
   \<and> active SessionWarning warned_session = []
   \<and> length (active AutoLogout warned_session) = 1
   \<and> isAuthenticated (state tokenless_session)
   \<and> timeouts tokenless_session = []"
  by (simp add: warned_session_def tokenless_session_def timer_defs)

subsection \<open>Role gating without a user\<close>

lemma reducer_keeps_user_rule:
  "isAuthenticated st \<or> user st = None \<Longrightarrow>
     isAuthenticated (authReducer now st a) \<or> user (authReducer now st a) = None"
  by (cases a) auto

lemma step_keeps_user_rule:
  assumes "user_only_when_authenticated w"
  shows "user_only_when_authenticated (step e w)"
proof (cases e)
  case (Act a)
  with assms reducer_keeps_user_rule [of "state w" "clock w" a] show ?thesis
    by (simp add: user_only_when_authenticated_def)
next
  case (Fire h)
  have "user_only_when_authenticated (run_callback k (clearTimeout h w))" for k
    using assms by (cases k) (auto simp: user_only_when_authenticated_def clearTimeout_def)
  with assms Fire show ?thesis
    by (simp add: user_only_when_authenticated_def split: list.splits)
qed (use assms in \<open>simp_all add: user_only_when_authenticated_def\<close>)

lemma run_keeps_user_rule:
  "user_only_when_authenticated w \<Longrightarrow> user_only_when_authenticated (run es w)"
  by (induction es arbitrary: w) (simp_all add: run_def step_keeps_user_rule)

lemma mount_user_rule: "user_only_when_authenticated (mount stored now)"
  by (simp add: user_only_when_authenticated_def mount_def initialState_def)

text \<open>
  Claim C10. When no user is loaded, \<open>hasRole\<close> is false for every role string,
  \<open>hasAnyRole\<close> is false for every list of roles that does not contain
  \<^verbatim>\<open>undefined\<close>, and the role-gating wrapper shows the access-denied view whatever
  the allowed roles are. In every state the provider reaches, a session that is not
  authenticated has no user, so the wrapper denies access to every unauthenticated
  visitor.
\<close>

theorem no_user_no_role:
  "(user st = None \<longrightarrow>
      \<not> hasRole st (Some r)
      \<and> (None \<notin> set roles \<longrightarrow> \<not> hasAnyRole st roles)
      \<and> withRoleAccess allowedRoles st = AccessDenied)
   \<and> (\<not> isAuthenticated (state (run es (mount stored now))) \<longrightarrow>
        withRoleAccess allowedRoles (state (run es (mount stored now))) = AccessDenied)"
proof -
  have "user (state (run es (mount stored now))) = None"
    if "\<not> isAuthenticated (state (run es (mount stored now)))"
    using that run_keeps_user_rule [OF mount_user_rule, of es stored now]
    by (simp add: user_only_when_authenticated_def)
  then show ?thesis
    by (auto simp: hasRole_def hasAnyRole_def user_role_def withRoleAccess_def)
qed

theorem no_user_no_role_witness:
  "user (initialState None 0) = None
   \<and> \<not> hasRole (initialState None 0) (Some ''admin'')
   \<and> None \<notin> set [Some ''admin'', Some ''doctor'']
   \<and> \<not> hasAnyRole (initialState None 0) [Some ''admin'', Some ''doctor'']
   \<and> withRoleAccess [Some ''admin'', None] (initialState None 0) = AccessDenied
   \<and> \<not> isAuthenticated (state (run [Logout] warned_session))
   \<and> withRoleAccess [Some ''admin''] (state (run [Logout] warned_session)) = AccessDenied"
proof -
  have u: "user (initialState None 0) = None"
    by (simp add: initialState_def)
  have r: "run [Logout] warned_session =
      run [SetAuthToken (Some ''n.e.w''), Act (LOGIN_SUCCESS login_data), Tick 1500000, Fire 1,
           Logout] (mount None 0)"
    by (simp add: warned_session_def run_def)
  have n: "\<not> isAuthenticated (state (run [Logout] warned_session))"
    by (simp add: run_def)
  from u n
    no_user_no_role [of "initialState None 0" "''admin''" "[Some ''admin'', Some ''doctor'']"
      "[Some ''admin'', None]" "[]" None 0]
    no_user_no_role [of "initialState None 0" "''admin''" "[]" "[Some ''admin'']"
      "[SetAuthToken (Some ''n.e.w''), Act (LOGIN_SUCCESS login_data), Tick 1500000, Fire 1,
           Logout]" None 0]
  show ?thesis
    by (simp add: r)
qed

end
